theory Spec2Isabelle
  imports Complex_Main "HOL-Library.Char_ord" "HOL-Library.List_Lexorder"
begin

section \<open>Voice embedding worker: shared data model\<close>

text \<open>
  The development follows \<^verbatim>\<open>scripts/voice-embedding-worker.py\<close>.

  A Python float is modelled by the real number it denotes, or by \<open>NaN\<close>: rounding and
  the infinities are left out, not-a-number is kept because it is what numpy's division
  \<open>0.0 / 0.0\<close> returns and because every ordered comparison with it is false.
\<close>

datatype pyfloat = Num real | NaN

fun float_gt :: "pyfloat \<Rightarrow> pyfloat \<Rightarrow> bool" where
  "float_gt (Num a) (Num b) = (b < a)"
| "float_gt _ _ = False"

fun float_ge :: "pyfloat \<Rightarrow> pyfloat \<Rightarrow> bool" where
  "float_ge (Num a) (Num b) = (b \<le> a)"
| "float_ge _ _ = False"

datatype error = ValueError

text \<open>
  A Python \<open>dict\<close> keeps its items in insertion order: it is an association list with
  distinct keys. \<open>d[k] = v\<close> replaces the value of a key in place, or appends a new item.
\<close>

type_synonym ('k, 'v) dict = "('k \<times> 'v) list"

fun dict_set :: "'k \<Rightarrow> 'v \<Rightarrow> ('k, 'v) dict \<Rightarrow> ('k, 'v) dict" where
  "dict_set k v [] = [(k, v)]"
| "dict_set k v ((k', v') # d) =
     (if k' = k then (k, v) # d else (k', v') # dict_set k v d)"

section \<open>extract_audio_segment (lines 34 to 55)\<close>

text \<open>
  The media tools and the encoder are outside the program. They are parameters of the
  model, gathered in a record: what \<open>ffmpeg\<close> did for a given command line, what
  \<open>preprocess_wav\<close> read from a file, what the encoder returned for a waveform, and the
  name of the temporary directory. The \<open>ffmpeg\<close> process is taken to start; it either exits
  with a non-zero status (\<open>CalledProcessError\<close>) or completes, and then the output file exists
  or not and has a size in bytes.
\<close>

datatype ffmpeg_result = CalledProcessError | Completed bool nat

datatype 'a outcome = Raised | Returned 'a

record world =
  run_ffmpeg :: "string \<Rightarrow> int \<Rightarrow> int \<Rightarrow> string \<Rightarrow> ffmpeg_result"
  preprocess_wav :: "string \<Rightarrow> real list outcome"
  embed_utterance :: "real list \<Rightarrow> real list outcome"
  temp_dir :: string

definition extract_audio_segment :: "world \<Rightarrow> string \<Rightarrow> int \<Rightarrow> int \<Rightarrow> string \<Rightarrow> bool" where
  "extract_audio_segment W video_path start_ms end_ms output_path =
     (case run_ffmpeg W video_path start_ms end_ms output_path of
        CalledProcessError \<Rightarrow> False
      | Completed file_exists file_size \<Rightarrow> file_exists \<and> 1000 < file_size)"

section \<open>create_speaker_embeddings (lines 58 to 142)\<close>

subsection \<open>Grouping the words by speaker (lines 76 to 88)\<close>

text \<open>
  A word of the diarization is a JSON object; each key the function reads may be absent.
  \<open>word.get(k, d)\<close> is \<open>get_default\<close> on the optional field.
\<close>

record word =
  w_speaker :: "string option"
  w_startMs :: "int option"
  w_start :: "int option"
  w_endMs :: "int option"
  w_end :: "int option"
  w_text :: "string option"
  w_word :: "string option"

record segment =
  seg_start :: int
  seg_end :: int
  seg_text :: string

definition get_default :: "'a option \<Rightarrow> 'a \<Rightarrow> 'a" where
  "get_default field d = (case field of None \<Rightarrow> d | Some v \<Rightarrow> v)"

definition word_segment :: "word \<Rightarrow> segment" where
  "word_segment w =
     \<lparr>seg_start = get_default (w_startMs w) (get_default (w_start w) 0),
      seg_end = get_default (w_endMs w) (get_default (w_end w) 0),
      seg_text = get_default (w_text w) (get_default (w_word w) [])\<rparr>"

text \<open>
  Lines 81 to 88: a speaker seen for the first time gets an empty list at the end of the
  dict, and the segment is appended to the speaker's list in place.
\<close>

fun append_segment ::
  "string \<Rightarrow> segment \<Rightarrow> (string, segment list) dict \<Rightarrow> (string, segment list) dict" where
  "append_segment speaker seg [] = [(speaker, [seg])]"
| "append_segment speaker seg ((k, segs) # d) =
     (if k = speaker then (k, segs @ [seg]) # d else (k, segs) # append_segment speaker seg d)"

definition group_word ::
  "(string, segment list) dict \<Rightarrow> word \<Rightarrow> (string, segment list) dict" where
  "group_word speaker_segments w =
     (let speaker = get_default (w_speaker w) ''UNKNOWN''
      in if speaker = ''UNKNOWN'' then speaker_segments
         else append_segment speaker (word_segment w) speaker_segments)"

definition group_words :: "word list \<Rightarrow> (string, segment list) dict" where
  "group_words diarization_words = foldl group_word [] diarization_words"

subsection \<open>Merging close segments (lines 95 to 113)\<close>

text \<open>
  The state of the loop is the list \<open>merged_segments\<close> and \<open>current\<close>, which is \<open>None\<close>
  before the first segment. \<open>sorted\<close> is stable, as \<open>sort_key\<close> is.
\<close>

fun merge_step ::
  "segment list \<times> segment option \<Rightarrow> segment \<Rightarrow> segment list \<times> segment option" where
  "merge_step (merged_segments, None) seg = (merged_segments, Some seg)"
| "merge_step (merged_segments, Some current) seg =
     (if seg_start seg - seg_end current < 500
      then (merged_segments,
            Some (current\<lparr>seg_end := seg_end seg,
                           seg_text := seg_text current @ '' '' @ seg_text seg\<rparr>))
      else (if seg_end current - seg_start current > 500
            then merged_segments @ [current] else merged_segments,
            Some seg))"

definition merge_loop :: "segment list \<Rightarrow> segment list \<times> segment option" where
  "merge_loop sample_segments = foldl merge_step ([], None) (sort_key seg_start sample_segments)"

definition merge_segments :: "segment list \<Rightarrow> segment list" where
  "merge_segments sample_segments =
     (case merge_loop sample_segments of
        (merged_segments, None) \<Rightarrow> merged_segments
      | (merged_segments, Some current) \<Rightarrow>
          if seg_end current - seg_start current > 500
          then merged_segments @ [current] else merged_segments)"

subsection \<open>Extracting and encoding the utterances (lines 120 to 132)\<close>

text \<open>
  What the program does is recorded as a trace of events: each call of
  \<open>extract_audio_segment\<close>, with the speaker and the index of the utterance it is made
  for, and the messages printed for a speaker (the banners are left out).
\<close>

datatype event =
    Extract string nat int int
  | Print_error string nat
  | Print_no_valid_segments string
  | Print_created string nat
  | Print_failed string

fun str_nat :: "nat \<Rightarrow> string" where
  "str_nat n =
     (if n < 10 then [char_of (48 + n)] else str_nat (n div 10) @ [char_of (48 + n mod 10)])"

definition audio_path_of :: "world \<Rightarrow> string \<Rightarrow> nat \<Rightarrow> string" where
  "audio_path_of W speaker_id i = temp_dir W @ ''/'' @ speaker_id @ ''_'' @ str_nat i @ ''.wav''"

text \<open>
  One round of the loop of line 122: the vector appended to \<open>embeddings\<close>, if any, and the
  events. A file that could not be extracted, an empty waveform and an exception of
  \<open>preprocess_wav\<close> or of the encoder all leave \<open>embeddings\<close> as it is.
\<close>

definition embed_segment ::
  "world \<Rightarrow> string \<Rightarrow> string \<Rightarrow> nat \<Rightarrow> segment \<Rightarrow> real list option \<times> event list" where
  "embed_segment W video_path speaker_id i seg =
     (let audio_path = audio_path_of W speaker_id i;
          call = Extract speaker_id i (seg_start seg) (seg_end seg)
      in if extract_audio_segment W video_path (seg_start seg) (seg_end seg) audio_path
         then (case preprocess_wav W audio_path of
                 Raised \<Rightarrow> (None, [call, Print_error speaker_id i])
               | Returned wav \<Rightarrow>
                   if length wav > 0
                   then (case embed_utterance W wav of
                           Raised \<Rightarrow> (None, [call, Print_error speaker_id i])
                         | Returned embedding \<Rightarrow> (Some embedding, [call]))
                   else (None, [call]))
         else (None, [call]))"

fun embed_loop ::
  "world \<Rightarrow> string \<Rightarrow> string \<Rightarrow> (nat \<times> segment) list \<Rightarrow> real list list \<Rightarrow> event list
     \<Rightarrow> real list list \<times> event list" where
  "embed_loop W video_path speaker_id [] embeddings events = (embeddings, events)"
| "embed_loop W video_path speaker_id ((i, seg) # rest) embeddings events =
     (case embed_segment W video_path speaker_id i seg of
        (None, evs) \<Rightarrow> embed_loop W video_path speaker_id rest embeddings (events @ evs)
      | (Some embedding, evs) \<Rightarrow>
          embed_loop W video_path speaker_id rest (embeddings @ [embedding]) (events @ evs))"

subsection \<open>Averaging (line 136)\<close>

text \<open>
  \<open>np.mean(embeddings, axis=0)\<close> on a non-empty list of vectors of one length: the sum of
  the rows, each component divided by the number of rows. The encoder returns vectors of
  one fixed length; rows of different lengths are outside the model. The function is
  only called on a non-empty list (line 134).
\<close>

definition vec_add :: "real list \<Rightarrow> real list \<Rightarrow> real list" where
  "vec_add a b = map (\<lambda>(x, y). x + y) (zip a b)"

definition np_mean_axis0 :: "real list list \<Rightarrow> real list" where
  "np_mean_axis0 rows =
     (case rows of
        [] \<Rightarrow> []
      | r # rs \<Rightarrow> map (\<lambda>x. x / real (length rows)) (foldl vec_add r rs))"

subsection \<open>The loop over the speakers (lines 93 to 140)\<close>

definition process_speaker ::
  "world \<Rightarrow> string \<Rightarrow> string \<Rightarrow> segment list \<Rightarrow> real list option \<times> event list" where
  "process_speaker W video_path speaker_id segments =
     (let sample_segments = take 10 segments;
          merged_segments = merge_segments sample_segments
      in if merged_segments = [] then (None, [Print_no_valid_segments speaker_id])
         else (case embed_loop W video_path speaker_id
                      (enumerate 0 (take 5 merged_segments)) [] [] of
                 (embeddings, events) \<Rightarrow>
                   if embeddings \<noteq> []
                   then (Some (np_mean_axis0 embeddings),
                         events @ [Print_created speaker_id (length embeddings)])
                   else (None, events @ [Print_failed speaker_id])))"

fun speakers_loop ::
  "world \<Rightarrow> string \<Rightarrow> (string, segment list) dict \<Rightarrow> (string, real list) dict \<Rightarrow> event list
     \<Rightarrow> (string, real list) dict \<times> event list" where
  "speakers_loop W video_path [] speaker_embeddings events = (speaker_embeddings, events)"
| "speakers_loop W video_path ((speaker_id, segments) # rest) speaker_embeddings events =
     (case process_speaker W video_path speaker_id segments of
        (None, evs) \<Rightarrow> speakers_loop W video_path rest speaker_embeddings (events @ evs)
      | (Some avg_embedding, evs) \<Rightarrow>
          speakers_loop W video_path rest
            (dict_set speaker_id avg_embedding speaker_embeddings) (events @ evs))"

definition create_speaker_embeddings ::
  "world \<Rightarrow> string \<Rightarrow> word list \<Rightarrow> (string, real list) dict \<times> event list" where
  "create_speaker_embeddings W video_path diarization_words =
     speakers_loop W video_path (group_words diarization_words) [] []"

subsection \<open>Reading the result\<close>

text \<open>
  Shorthands for the statements below: the speaker label of a word (line 77), the spans
  of one speaker in the order of the word list, the utterances the loop of line 122 runs
  over, with their indices, and the vectors that loop collects. \<open>extract_call\<close> reads the
  calls of \<open>extract_audio_segment\<close> made for one speaker off the trace, and
  \<open>created_count\<close> the numbers of segments printed for the speaker at line 138.
\<close>

abbreviation speaker_of :: "word \<Rightarrow> string" where
  "speaker_of w \<equiv> get_default (w_speaker w) ''UNKNOWN''"

abbreviation speaker_spans :: "string \<Rightarrow> word list \<Rightarrow> segment list" where
  "speaker_spans s ws \<equiv> map word_segment [w \<leftarrow> ws. speaker_of w = s]"

abbreviation selected_utterances :: "segment list \<Rightarrow> (nat \<times> segment) list" where
  "selected_utterances segs \<equiv> enumerate 0 (take 5 (merge_segments (take 10 segs)))"

abbreviation collected_vectors ::
  "world \<Rightarrow> string \<Rightarrow> string \<Rightarrow> segment list \<Rightarrow> real list list" where
  "collected_vectors W v s segs \<equiv>
     List.map_filter (\<lambda>(i, u). fst (embed_segment W v s i u)) (selected_utterances segs)"

fun extract_call :: "string \<Rightarrow> event \<Rightarrow> (nat \<times> int \<times> int) option" where
  "extract_call s (Extract s' i a b) = (if s' = s then Some (i, a, b) else None)"
| "extract_call s _ = None"

fun created_count :: "string \<Rightarrow> event \<Rightarrow> nat option" where
  "created_count s (Print_created s' n) = (if s' = s then Some n else None)"
| "created_count s _ = None"

section \<open>compare_speakers (lines 145 to 166)\<close>

text \<open>
  \<open>np.dot\<close> of two one-dimensional arrays raises \<open>ValueError\<close> when their lengths differ.
\<close>

definition np_dot :: "real list \<Rightarrow> real list \<Rightarrow> error + real" where
  "np_dot a b =
     (if length a \<noteq> length b then Inl ValueError
      else Inr (\<Sum>(x, y) \<leftarrow> zip a b. x * y))"

definition np_norm :: "real list \<Rightarrow> real" where
  "np_norm a = sqrt (\<Sum>x \<leftarrow> a. x * x)"

text \<open>
  Line 163. The quotient of two numpy scalars does not raise on a zero divisor. The
  divisor \<open>np_norm a * np_norm b\<close> is zero only when one vector is all zeros, and then the dot
  product is zero too (lemma \<open>norm_zero_dot_zero\<close> below), so the quotient is
  \<open>0.0 / 0.0\<close>, which is not-a-number.
\<close>

definition cosine_similarity :: "real list \<Rightarrow> real list \<Rightarrow> error + pyfloat" where
  "cosine_similarity emb1 emb2 =
     (case np_dot emb1 emb2 of
        Inl e \<Rightarrow> Inl e
      | Inr d \<Rightarrow>
          (let n = np_norm emb1 * np_norm emb2
           in if n = 0 then Inr NaN else Inr (Num (d / n))))"

fun compare_row ::
  "real list \<Rightarrow> (string, real list) dict \<Rightarrow> (string, pyfloat) dict
     \<Rightarrow> error + (string, pyfloat) dict" where
  "compare_row emb1 [] row = Inr row"
| "compare_row emb1 ((speaker2, emb2) # rest) row =
     (case cosine_similarity emb1 emb2 of
        Inl e \<Rightarrow> Inl e
      | Inr similarity \<Rightarrow> compare_row emb1 rest (dict_set speaker2 similarity row))"

fun compare_loop ::
  "(string, real list) dict \<Rightarrow> (string, real list) dict
     \<Rightarrow> (string, (string, pyfloat) dict) dict
     \<Rightarrow> error + (string, (string, pyfloat) dict) dict" where
  "compare_loop [] embeddings2 similarities = Inr similarities"
| "compare_loop ((speaker1, emb1) # rest) embeddings2 similarities =
     (case compare_row emb1 embeddings2 [] of
        Inl e \<Rightarrow> Inl e
      | Inr row \<Rightarrow> compare_loop rest embeddings2 (dict_set speaker1 row similarities))"

definition compare_speakers ::
  "(string, real list) dict \<Rightarrow> (string, real list) dict
     \<Rightarrow> error + (string, (string, pyfloat) dict) dict" where
  "compare_speakers embeddings1 embeddings2 = compare_loop embeddings1 embeddings2 []"

section \<open>find_best_matches (lines 169 to 191)\<close>

text \<open>
  The builtin \<open>max(iterable, key=f)\<close> raises \<open>ValueError\<close> on an empty iterable. Otherwise
  it keeps the first item and replaces it only by an item whose key is strictly greater
  (\<open>>\<close>), so among several items of greatest key the first one in iteration order wins.
\<close>

fun max_loop :: "('a \<Rightarrow> pyfloat) \<Rightarrow> 'a \<Rightarrow> 'a list \<Rightarrow> 'a" where
  "max_loop key best [] = best"
| "max_loop key best (x # xs) =
     max_loop key (if float_gt (key x) (key best) then x else best) xs"

definition py_max :: "('a \<Rightarrow> pyfloat) \<Rightarrow> 'a list \<Rightarrow> error + 'a" where
  "py_max key xs = (case xs of [] \<Rightarrow> Inl ValueError | x # rest \<Rightarrow> Inr (max_loop key x rest))"

record match =
  character :: string
  confidence :: pyfloat
  method_name :: string

fun matches_loop ::
  "(string, (string, pyfloat) dict) dict \<Rightarrow> pyfloat \<Rightarrow> (string, match) dict
     \<Rightarrow> error + (string, match) dict" where
  "matches_loop [] threshold matches = Inr matches"
| "matches_loop ((speaker, scores) # rest) threshold matches =
     (case py_max snd scores of
        Inl e \<Rightarrow> Inl e
      | Inr best_match \<Rightarrow>
          if float_ge (snd best_match) threshold
          then matches_loop rest threshold
                 (dict_set speaker
                    \<lparr>character = fst best_match, confidence = snd best_match,
                     method_name = ''voice_embedding''\<rparr> matches)
          else matches_loop rest threshold matches)"

definition find_best_matches ::
  "(string, (string, pyfloat) dict) dict \<Rightarrow> pyfloat \<Rightarrow> error + (string, match) dict" where
  "find_best_matches similarities threshold = matches_loop similarities threshold []"

definition default_threshold :: pyfloat where
  "default_threshold = Num (3 / 4)"

section \<open>Properties of the dict operations\<close>

lemma map_of_dict_set: "map_of (dict_set k v d) = (map_of d)(k \<mapsto> v)"
  by (induction d) (auto simp: fun_eq_iff)

lemma keys_dict_set: "fst ` set (dict_set k v d) = insert k (fst ` set d)"
  by (induction d) force+

lemma dict_set_fresh: "k \<notin> fst ` set d \<Longrightarrow> dict_set k v d = d @ [(k, v)]"
  by (induction d) auto

lemma distinct_dict_set: "distinct (map fst d) \<Longrightarrow> distinct (map fst (dict_set k v d))"
  by (induction d) (auto simp: keys_dict_set)

section \<open>Properties of find_best_matches\<close>

lemma matches_loop_returns:
  "\<forall>(speaker, scores) \<in> set sims. scores \<noteq> [] \<Longrightarrow> \<exists>m. matches_loop sims thr acc = Inr m"
proof (induction sims arbitrary: acc)
  case Nil
  then show ?case by simp
next
  case (Cons p sims)
  obtain speaker scores where p: "p = (speaker, scores)" by (cases p)
  with Cons.prems obtain x xs where "scores = x # xs" by (cases scores) auto
  with p Cons show ?case by (simp add: py_max_def)
qed

lemma matches_loop_other:
  "matches_loop sims thr acc = Inr m \<Longrightarrow> c \<notin> fst ` set sims \<Longrightarrow> map_of m c = map_of acc c"
proof (induction sims arbitrary: acc)
  case Nil
  then show ?case by simp
next
  case (Cons p sims)
  obtain speaker scores where p: "p = (speaker, scores)" by (cases p)
  with Cons.prems have ne: "c \<noteq> speaker" "c \<notin> fst ` set sims" by auto
  from Cons.prems(1) p ne(1) Cons.IH[OF _ ne(2)] show ?case
    by (auto split: sum.splits if_splits simp: map_of_dict_set)
qed

lemma matches_loop_row:
  assumes "matches_loop sims thr acc = Inr m" and "distinct (map fst sims)"
      and "(c, scores) \<in> set sims" and "py_max snd scores = Inr best"
  shows "map_of m c =
           (if float_ge (snd best) thr
            then Some \<lparr>character = fst best, confidence = snd best,
                       method_name = ''voice_embedding''\<rparr>
            else map_of acc c)"
  using assms
proof (induction sims arbitrary: acc)
  case Nil
  then show ?case by simp
next
  case (Cons p sims)
  obtain speaker row where p: "p = (speaker, row)" by (cases p)
  show ?case
  proof (cases "c = speaker")
    case True
    with Cons.prems p have row: "row = scores" and fresh: "c \<notin> fst ` set sims"
      by (auto simp: image_iff)
    have other: "\<And>a. matches_loop sims thr a = Inr m \<Longrightarrow> map_of m speaker = map_of a speaker"
      using matches_loop_other fresh True by blast
    from Cons.prems(1) p row Cons.prems(4) True show ?thesis
      by (auto split: if_splits dest!: other simp: map_of_dict_set)
  next
    case False
    with Cons.prems p have mem: "(c, scores) \<in> set sims" and d: "distinct (map fst sims)"
      by auto
    from Cons.prems(1) p False Cons.IH[OF _ d mem Cons.prems(4)] show ?thesis
      by (auto split: sum.splits if_splits simp: map_of_dict_set)
  qed
qed

lemma float_gt_NaN: "float_gt x NaN = False" "float_gt NaN x = False"
  by (cases x; simp)+

lemma float_ge_NaN: "float_ge x NaN = False" "float_ge NaN x = False"
  by (cases x; simp)+

lemma max_loop_snoc:
  "max_loop key b (ys @ [y]) =
     (if float_gt (key y) (key (max_loop key b ys)) then y else max_loop key b ys)"
  by (induction ys arbitrary: b) auto

lemma max_loop_nan_first: "key b = NaN \<Longrightarrow> max_loop key b xs = b"
  by (induction xs) (simp_all add: float_gt_NaN)

lemma float_gt_ge_trans: "float_gt a b \<Longrightarrow> float_ge b c \<Longrightarrow> float_gt a c"
  by (cases a; cases b; cases c) auto

lemma float_gt_gt_trans: "float_gt a b \<Longrightarrow> float_gt b c \<Longrightarrow> float_gt a c"
  by (cases a; cases b; cases c) auto

lemma float_not_gt_ge: "a \<noteq> NaN \<Longrightarrow> b \<noteq> NaN \<Longrightarrow> \<not> float_gt a b \<Longrightarrow> float_ge b a"
  by (cases a; cases b) auto

lemma float_gt_not_NaN: "float_gt a b \<Longrightarrow> a \<noteq> NaN"
  by (cases a) auto

lemma max_loop_split:
  assumes "key b \<noteq> NaN"
  shows "\<exists>pre post. b # xs = pre @ max_loop key b xs # post
     \<and> key (max_loop key b xs) \<noteq> NaN
     \<and> (\<forall>x \<in> set pre. key x = NaN \<or> float_gt (key (max_loop key b xs)) (key x))
     \<and> (\<forall>x \<in> set post. key x = NaN \<or> float_ge (key (max_loop key b xs)) (key x))"
proof (induction xs rule: rev_induct)
  case Nil
  have "[b] = [] @ max_loop key b [] # []" by simp
  with assms show ?case by fastforce
next
  case (snoc y ys)
  let ?m = "max_loop key b ys"
  from snoc obtain pre post where
    sp: "b # ys = pre @ ?m # post"
    and nn: "key ?m \<noteq> NaN"
    and lt: "\<forall>x \<in> set pre. key x = NaN \<or> float_gt (key ?m) (key x)"
    and ge: "\<forall>x \<in> set post. key x = NaN \<or> float_ge (key ?m) (key x)"
    by blast
  show ?case
  proof (cases "float_gt (key y) (key ?m)")
    case True
    have all: "\<forall>x \<in> set (b # ys). key x = NaN \<or> float_gt (key y) (key x)"
    proof
      fix x assume "x \<in> set (b # ys)"
      then have "x \<in> set pre \<or> x = ?m \<or> x \<in> set post"
        unfolding sp by auto
      then show "key x = NaN \<or> float_gt (key y) (key x)"
        using True lt ge float_gt_gt_trans float_gt_ge_trans by blast
    qed
    have eq: "max_loop key b (ys @ [y]) = y" using True by (simp add: max_loop_snoc)
    have "b # ys @ [y] = (b # ys) @ y # []" by simp
    moreover have "key y \<noteq> NaN" using True by (rule float_gt_not_NaN)
    ultimately show ?thesis
      unfolding eq using all by (intro exI[of _ "b # ys"] exI[of _ "[]"]) simp
  next
    case False
    have eq: "max_loop key b (ys @ [y]) = ?m" using False by (simp add: max_loop_snoc)
    have y: "key y = NaN \<or> float_ge (key ?m) (key y)"
      using False nn float_not_gt_ge by blast
    have "b # ys @ [y] = pre @ ?m # (post @ [y])" using sp by simp
    then show ?thesis
      unfolding eq using nn lt ge y by (intro exI[of _ pre] exI[of _ "post @ [y]"]) auto
  qed
qed

lemma row_selection:
  assumes "matches_loop sims thr [] = Inr m" and "distinct (map fst sims)"
    and "(c, scores) \<in> set sims" and "scores \<noteq> []"
  shows "(snd (hd scores) = NaN \<longrightarrow> map_of m c = None)
       \<and> (snd (hd scores) \<noteq> NaN \<longrightarrow>
            (\<exists>pre ref mx post. scores = pre @ (ref, Num mx) # post
               \<and> (\<forall>(r, s) \<in> set pre. s = NaN \<or> float_gt (Num mx) s)
               \<and> (\<forall>(r, s) \<in> set post. s = NaN \<or> float_ge (Num mx) s)
               \<and> map_of m c =
                   (if float_ge (Num mx) thr
                    then Some \<lparr>character = ref, confidence = Num mx,
                               method_name = ''voice_embedding''\<rparr>
                    else None)))"
proof -
  from assms(4) obtain b xs where sc: "scores = b # xs" by (cases scores) auto
  let ?best = "max_loop snd b xs"
  have pm: "py_max snd scores = Inr ?best" by (simp add: sc py_max_def)
  note row = matches_loop_row[OF assms(1,2,3) pm]
  show ?thesis
  proof (cases "snd b = NaN")
    case True
    then have "?best = b" by (rule max_loop_nan_first)
    with row True sc show ?thesis by (simp add: float_ge_NaN)
  next
    case False
    from max_loop_split[of snd b xs, OF False] obtain pre post where
      sp: "b # xs = pre @ ?best # post"
      and nn: "snd ?best \<noteq> NaN"
      and lt: "\<forall>x \<in> set pre. snd x = NaN \<or> float_gt (snd ?best) (snd x)"
      and ge: "\<forall>x \<in> set post. snd x = NaN \<or> float_ge (snd ?best) (snd x)"
      by blast
    from nn obtain mx where mx: "snd ?best = Num mx" by (cases "snd ?best") auto
    then have best: "?best = (fst ?best, Num mx)" by (metis prod.collapse)
    have "scores = pre @ (fst ?best, Num mx) # post" using sp sc best by simp
    moreover have "\<forall>(r, s) \<in> set pre. s = NaN \<or> float_gt (Num mx) s"
      using lt mx by auto
    moreover have "\<forall>(r, s) \<in> set post. s = NaN \<or> float_ge (Num mx) s"
      using ge mx by auto
    moreover have "map_of m c =
                   (if float_ge (Num mx) thr
                    then Some \<lparr>character = fst ?best, confidence = Num mx,
                               method_name = ''voice_embedding''\<rparr>
                    else None)"
      using row mx by simp
    ultimately have "\<exists>pre ref mx post. scores = pre @ (ref, Num mx) # post
               \<and> (\<forall>(r, s) \<in> set pre. s = NaN \<or> float_gt (Num mx) s)
               \<and> (\<forall>(r, s) \<in> set post. s = NaN \<or> float_ge (Num mx) s)
               \<and> map_of m c =
                   (if float_ge (Num mx) thr
                    then Some \<lparr>character = ref, confidence = Num mx,
                               method_name = ''voice_embedding''\<rparr>
                    else None)"
      by blast
    moreover have "snd (hd scores) \<noteq> NaN" using False sc by simp
    ultimately show ?thesis by simp
  qed
qed

text \<open>
  Claim C1. The claim: a candidate whose row of scores is empty is left out of the result
  and the matcher still returns the matches of the other candidates. The code calls
  \<open>max\<close> on the items of the row without looking at its length, so an empty row raises
  \<open>ValueError\<close> and no match map is returned at all. Such a row is what
  \<open>compare_speakers\<close> builds for every candidate when the reference set has no entries.
\<close>

theorem empty_row_raises:
  "compare_speakers [(''S1'', [1, 0])] [] = Inr [(''S1'', [])]
   \<and> find_best_matches [(''S1'', [])] default_threshold = Inl ValueError
   \<and> find_best_matches [(''S1'', [(''Alice'', Num (9 / 10))]), (''S2'', [])] default_threshold
       = Inl ValueError"
  by (simp add: compare_speakers_def find_best_matches_def py_max_def)

text \<open>
  Claim C2, as stated: among the reference IDs that share the maximum score the
  lexicographically smallest is selected, whatever the insertion order of the row. It fails:
  with \<open>Y\<close> inserted before \<open>X\<close> and both at 0.8, the match is \<open>Y\<close>.
\<close>

theorem tie_break_counterexample:
  "find_best_matches [(''A'', [(''Y'', Num (4/5)), (''X'', Num (4/5))])] default_threshold
     = Inr [(''A'', \<lparr>character = ''Y'', confidence = Num (4/5),
                      method_name = ''voice_embedding''\<rparr>)]
   \<and> (''X'' :: string) < ''Y''"
  by (simp add: find_best_matches_def py_max_def default_threshold_def)

text \<open>
  Claim C2, amended: in a table with no empty row, take a candidate row whose first score
  in iteration order is a number, and let \<open>mx\<close> be the greatest of the row's scores that
  are numbers. If \<open>mx >= threshold\<close>, the reference selected is the one that comes first in
  the iteration (insertion) order of the row among those with score \<open>mx\<close>: every entry
  before it is not-a-number or strictly smaller, every entry after it is not-a-number or
  at most \<open>mx\<close>. If \<open>mx\<close> is below the threshold, no reference is selected. The
  lexicographic order of the IDs plays no part. The result is a function of the table and
  of its order, so repeated runs on the same table agree.
\<close>

theorem tie_break_first_inserted:
  assumes "distinct (map fst similarities)"
      and "\<forall>(speaker, scores) \<in> set similarities. scores \<noteq> []"
      and "(speaker, scores) \<in> set similarities"
      and "snd (hd scores) \<noteq> NaN"
  shows "\<exists>matches pre ref mx post.
           find_best_matches similarities threshold = Inr matches
           \<and> scores = pre @ (ref, Num mx) # post
           \<and> (\<forall>(r, s) \<in> set pre. s = NaN \<or> float_gt (Num mx) s)
           \<and> (\<forall>(r, s) \<in> set post. s = NaN \<or> float_ge (Num mx) s)
           \<and> map_of matches speaker =
               (if float_ge (Num mx) threshold
                then Some \<lparr>character = ref, confidence = Num mx,
                           method_name = ''voice_embedding''\<rparr>
                else None)"
proof -
  from assms(2) obtain matches where m: "matches_loop similarities threshold [] = Inr matches"
    using matches_loop_returns by blast
  from assms(2,3) have "scores \<noteq> []" by auto
  from row_selection[OF m assms(1,3) this] assms(4) m show ?thesis
    unfolding find_best_matches_def by blast
qed

theorem tie_break_first_inserted_witness:
  "\<exists>matches.
     find_best_matches [(''A'', [(''Y'', Num (4/5)), (''N'', NaN), (''X'', Num (4/5))])]
       default_threshold = Inr matches
     \<and> map_of matches ''A'' = Some \<lparr>character = ''Y'', confidence = Num (4/5),
                                    method_name = ''voice_embedding''\<rparr>"
proof -
  let ?row = "[(''Y'', Num (4/5)), (''N'', NaN), (''X'', Num (4/5))]"
  have h: "distinct (map fst [(''A'', ?row)])"
    "\<forall>(speaker, scores) \<in> set [(''A'', ?row)]. scores \<noteq> []"
    "(''A'', ?row) \<in> set [(''A'', ?row)]" "snd (hd ?row) \<noteq> NaN"
    by simp_all
  from tie_break_first_inserted[OF h, of default_threshold]
  obtain matches pre ref mx post where
    m: "find_best_matches [(''A'', ?row)] default_threshold = Inr matches"
    and sp: "?row = pre @ (ref, Num mx) # post"
    and lt: "\<forall>(r, s) \<in> set pre. s = NaN \<or> float_gt (Num mx) s"
    and sel: "map_of matches ''A'' =
               (if float_ge (Num mx) default_threshold
                then Some \<lparr>character = ref, confidence = Num mx,
                           method_name = ''voice_embedding''\<rparr>
                else None)"
    by blast
  have "pre = []"
  proof (cases pre)
    case Nil
    then show ?thesis .
  next
    case (Cons p pre')
    with sp have p: "p = (''Y'', Num (4/5))" by simp
    from Cons sp have "(ref, Num mx) \<in> set [(''N'', NaN), (''X'', Num (4/5))]"
      by (metis append_Cons in_set_conv_decomp list.inject)
    then have "mx = 4/5" by auto
    with lt Cons p show ?thesis by auto
  qed
  with sp have "ref = ''Y''" "mx = 4/5" by simp_all
  with m sel show ?thesis by (simp add: default_threshold_def)
qed

text \<open>
  Claim C5, as stated: for every candidate row, a maximum score \<open>>= threshold\<close> gives a match
  with that confidence. It fails for a row whose first score is not-a-number: no later
  score is \<open>>\<close> it, \<open>max\<close> returns that first item, and the candidate is left out although
  the row holds 0.9. \<open>compare_speakers\<close> builds such a row when the first reference vector
  has norm zero.
\<close>

theorem nan_row_counterexample:
  "find_best_matches [(''A'', [(''X'', NaN), (''Y'', Num (9/10))])] default_threshold = Inr []
   \<and> float_ge (Num (9/10)) default_threshold
   \<and> compare_speakers [(''S1'', [1, 0])] [(''Zero'', [0, 0]), (''Alice'', [1, 0])]
       = Inr [(''S1'', [(''Zero'', NaN), (''Alice'', Num 1)])]
   \<and> find_best_matches [(''S1'', [(''Zero'', NaN), (''Alice'', Num 1)])] default_threshold
       = Inr []"
  by (simp add: find_best_matches_def py_max_def default_threshold_def compare_speakers_def
      cosine_similarity_def np_dot_def np_norm_def)

text \<open>
  Claim C5, amended: in a table with no empty row, for every candidate row: if the first
  score of the row in iteration order is not-a-number, the candidate is absent from the
  match map; otherwise, with \<open>mx\<close> the greatest of the row's scores that are numbers, the
  candidate has a match whose confidence is \<open>mx\<close> and whose character is a reference with
  that score if \<open>mx >= threshold\<close>, and the candidate is absent from the match map if \<open>mx\<close>
  is below the threshold. The instance that follows is the table
  \<open>{A: {X: 0.9, Y: 0.6}, B: {X: 0.5}, C: {Z: nan, Y: 0.9}}\<close> with the default threshold
  0.75.
\<close>

theorem find_best_matches_threshold:
  assumes "distinct (map fst similarities)"
      and "\<forall>(speaker, scores) \<in> set similarities. scores \<noteq> []"
      and "(speaker, scores) \<in> set similarities"
  shows "\<exists>matches. find_best_matches similarities threshold = Inr matches
           \<and> (snd (hd scores) = NaN \<longrightarrow> map_of matches speaker = None)
           \<and> (snd (hd scores) \<noteq> NaN \<longrightarrow>
                (\<exists>ref mx. (ref, Num mx) \<in> set scores
                   \<and> (\<forall>(r, s) \<in> set scores. s = NaN \<or> float_ge (Num mx) s)
                   \<and> map_of matches speaker =
                       (if float_ge (Num mx) threshold
                        then Some \<lparr>character = ref, confidence = Num mx,
                                   method_name = ''voice_embedding''\<rparr>
                        else None)))"
proof -
  from assms(2) obtain matches where m: "matches_loop similarities threshold [] = Inr matches"
    using matches_loop_returns by blast
  from assms(2,3) have "scores \<noteq> []" by auto
  note sel = row_selection[OF m assms(1,3) this]
  have "\<exists>ref mx. (ref, Num mx) \<in> set scores
           \<and> (\<forall>(r, s) \<in> set scores. s = NaN \<or> float_ge (Num mx) s)
           \<and> map_of matches speaker =
               (if float_ge (Num mx) threshold
                then Some \<lparr>character = ref, confidence = Num mx,
                           method_name = ''voice_embedding''\<rparr>
                else None)"
    if "snd (hd scores) \<noteq> NaN"
  proof -
    from sel that obtain pre ref mx post where
      sp: "scores = pre @ (ref, Num mx) # post"
      and lt: "\<forall>(r, s) \<in> set pre. s = NaN \<or> float_gt (Num mx) s"
      and ge: "\<forall>(r, s) \<in> set post. s = NaN \<or> float_ge (Num mx) s"
      and mp: "map_of matches speaker =
               (if float_ge (Num mx) threshold
                then Some \<lparr>character = ref, confidence = Num mx,
                           method_name = ''voice_embedding''\<rparr>
                else None)"
      by blast
    have "s = NaN \<or> float_ge (Num mx) s" if "(r, s) \<in> set scores" for r s
    proof -
      from that sp have "(r, s) \<in> set pre \<or> s = Num mx \<or> (r, s) \<in> set post" by auto
      then show ?thesis
      proof (elim disjE)
        assume "(r, s) \<in> set pre"
        with lt have "s = NaN \<or> float_gt (Num mx) s" by auto
        then show ?thesis by (cases s) auto
      next
        assume "s = Num mx"
        then show ?thesis by simp
      next
        assume "(r, s) \<in> set post"
        with ge show ?thesis by auto
      qed
    qed
    then have "\<forall>(r, s) \<in> set scores. s = NaN \<or> float_ge (Num mx) s" by auto
    moreover have "(ref, Num mx) \<in> set scores" using sp by simp
    ultimately show ?thesis using mp by blast
  qed
  with sel m show ?thesis unfolding find_best_matches_def by blast
qed

theorem find_best_matches_threshold_witness:
  "\<exists>matches.
     find_best_matches
       [(''A'', [(''X'', Num (9/10)), (''Y'', Num (6/10))]), (''B'', [(''X'', Num (1/2))]),
        (''C'', [(''Z'', NaN), (''Y'', Num (9/10))])]
       default_threshold = Inr matches
     \<and> map_of matches ''A'' = Some \<lparr>character = ''X'', confidence = Num (9/10),
                                    method_name = ''voice_embedding''\<rparr>
     \<and> map_of matches ''B'' = None
     \<and> map_of matches ''C'' = None"
proof -
  let ?sims = "[(''A'', [(''X'', Num (9/10)), (''Y'', Num (6/10))]), (''B'', [(''X'', Num (1/2))]),
        (''C'', [(''Z'', NaN), (''Y'', Num (9/10))])]"
  have h: "distinct (map fst ?sims)" "\<forall>(speaker, scores) \<in> set ?sims. scores \<noteq> []"
    by simp_all
  have c: "(''C'', [(''Z'', NaN), (''Y'', Num (9/10))]) \<in> set ?sims" by simp
  from find_best_matches_threshold[OF h c, of default_threshold]
  obtain matches where m: "find_best_matches ?sims default_threshold = Inr matches"
    and "map_of matches ''C'' = None"
    by auto
  moreover
  have a: "(''A'', [(''X'', Num (9/10)), (''Y'', Num (6/10))]) \<in> set ?sims" by simp
  from find_best_matches_threshold[OF h a, of default_threshold] m
  obtain ref mx where "(ref, Num mx) \<in> set [(''X'', Num (9/10)), (''Y'', Num (6/10 :: real))]"
    and "\<forall>(r, s) \<in> set [(''X'', Num (9/10)), (''Y'', Num (6/10 :: real))].
           s = NaN \<or> float_ge (Num mx) s"
    and "map_of matches ''A'' =
           (if float_ge (Num mx) default_threshold
            then Some \<lparr>character = ref, confidence = Num mx,
                       method_name = ''voice_embedding''\<rparr>
            else None)"
    by auto
  then have "map_of matches ''A'' = Some \<lparr>character = ''X'', confidence = Num (9/10),
                                    method_name = ''voice_embedding''\<rparr>"
    by (auto simp: default_threshold_def)
  moreover
  have b: "(''B'', [(''X'', Num (1/2))]) \<in> set ?sims" by simp
  from find_best_matches_threshold[OF h b, of default_threshold] m
  have "map_of matches ''B'' = None"
    by (auto simp: default_threshold_def)
  ultimately show ?thesis by blast
qed

section \<open>Properties of compare_speakers\<close>

lemma sumsq_nonneg: "0 \<le> (\<Sum>x \<leftarrow> a. x * x :: real)"
  by (induction a) auto

lemma sumsq_zero_iff: "(\<Sum>x \<leftarrow> a. x * x :: real) = 0 \<longleftrightarrow> (\<forall>x \<in> set a. x = 0)"
proof (induction a)
  case Nil
  then show ?case by simp
next
  case (Cons x a)
  have "0 \<le> x * x" by simp
  with sumsq_nonneg[of a] Cons show ?case
    by (auto simp: add_nonneg_eq_0_iff)
qed

lemma np_norm_zero_iff: "np_norm a = 0 \<longleftrightarrow> (\<forall>x \<in> set a. x = 0)"
  by (simp add: np_norm_def sumsq_zero_iff)

lemma np_norm_square: "np_norm a * np_norm a = (\<Sum>x \<leftarrow> a. x * x)"
  by (simp add: np_norm_def sumsq_nonneg)

lemma dot_zero_left: "\<forall>x \<in> set a. x = 0 \<Longrightarrow> (\<Sum>(x, y) \<leftarrow> zip a b. x * y :: real) = 0"
  by (induction a arbitrary: b) (auto simp: zip_Cons1 split: list.splits)

lemma dot_zero_right: "\<forall>y \<in> set b. y = 0 \<Longrightarrow> (\<Sum>(x, y) \<leftarrow> zip a b. x * y :: real) = 0"
  by (induction b arbitrary: a) (auto simp: zip_Cons split: list.splits)

lemma norm_zero_dot_zero:
  "np_norm a * np_norm b = 0 \<Longrightarrow> np_dot a b = Inr d \<Longrightarrow> d = 0"
  by (auto simp: np_dot_def np_norm_zero_iff dot_zero_left dot_zero_right split: if_splits)

lemma dot_self: "(\<Sum>(x, y) \<leftarrow> zip v v. x * y :: real) = (\<Sum>x \<leftarrow> v. x * x)"
  by (induction v) auto

lemma dot_neg: "(\<Sum>(x, y) \<leftarrow> zip v (map uminus v). x * y :: real) = - (\<Sum>x \<leftarrow> v. x * x)"
  by (induction v) auto

lemma np_norm_neg: "np_norm (map uminus v) = np_norm v"
  by (simp add: np_norm_def comp_def)

lemma sumsq_nonzero: "np_norm v \<noteq> 0 \<Longrightarrow> (\<Sum>x \<leftarrow> v. x * x) \<noteq> 0"
  by (simp add: np_norm_def)

lemma cosine_self: "np_norm v \<noteq> 0 \<Longrightarrow> cosine_similarity v v = Inr (Num 1)"
  by (simp add: cosine_similarity_def np_dot_def dot_self np_norm_square Let_def sumsq_nonzero)

lemma cosine_neg: "np_norm v \<noteq> 0 \<Longrightarrow> cosine_similarity v (map uminus v) = Inr (Num (- 1))"
  by (simp add: cosine_similarity_def np_dot_def dot_neg np_norm_neg np_norm_square Let_def
      sumsq_nonzero)

lemma compare_row_eq:
  assumes "distinct (map fst e2 @ map fst row)"
    and "\<And>s2 b. (s2, b) \<in> set e2 \<Longrightarrow> cosine_similarity a b = Inr (f b)"
  shows "compare_row a e2 row = Inr (row @ map (\<lambda>(s2, b). (s2, f b)) e2)"
  using assms
proof (induction e2 arbitrary: row)
  case Nil
  then show ?case by simp
next
  case (Cons p e2)
  obtain s2 b where p: "p = (s2, b)" by (cases p)
  with Cons.prems have cs: "cosine_similarity a b = Inr (f b)"
    and fresh: "s2 \<notin> fst ` set row" by auto
  have d: "distinct (map fst e2 @ map fst (row @ [(s2, f b)]))"
    using Cons.prems(1) p by auto
  have "compare_row a e2 (row @ [(s2, f b)]) =
      Inr ((row @ [(s2, f b)]) @ map (\<lambda>(s2, b). (s2, f b)) e2)"
    using d Cons.prems(2) by (intro Cons.IH) auto
  then show ?case
    by (simp add: p cs dict_set_fresh[OF fresh])
qed

lemma compare_loop_eq:
  assumes "distinct (map fst e1 @ map fst sims)" and "distinct (map fst e2)"
    and "\<And>s1 a s2 b. (s1, a) \<in> set e1 \<Longrightarrow> (s2, b) \<in> set e2
           \<Longrightarrow> cosine_similarity a b = Inr (f a b)"
  shows "compare_loop e1 e2 sims =
           Inr (sims @ map (\<lambda>(s1, a). (s1, map (\<lambda>(s2, b). (s2, f a b)) e2)) e1)"
  using assms
proof (induction e1 arbitrary: sims)
  case Nil
  then show ?case by simp
next
  case (Cons p e1)
  obtain s1 a where p: "p = (s1, a)" by (cases p)
  let ?row = "map (\<lambda>(s2, b). (s2, f a b)) e2"
  from Cons.prems p have fresh: "s1 \<notin> fst ` set sims" by auto
  have "compare_row a e2 [] = Inr ([] @ ?row)"
  proof (rule compare_row_eq)
    show "distinct (map fst e2 @ map fst [])" using Cons.prems(2) by simp
    show "cosine_similarity a b = Inr (f a b)" if "(s2, b) \<in> set e2" for s2 b
      using Cons.prems(3)[of s1 a s2 b] that p by simp
  qed
  then have row: "compare_row a e2 [] = Inr ?row" by simp
  have d: "distinct (map fst e1 @ map fst (sims @ [(s1, ?row)]))"
    using Cons.prems(1) p by auto
  have "compare_loop e1 e2 (sims @ [(s1, ?row)]) =
      Inr ((sims @ [(s1, ?row)]) @ map (\<lambda>(s1, a). (s1, map (\<lambda>(s2, b). (s2, f a b)) e2)) e1)"
    using d Cons.prems(2,3) by (intro Cons.IH) auto
  then show ?case
    by (simp add: p row dict_set_fresh[OF fresh])
qed

lemma cosine_similarity_eq:
  "length b = length a \<Longrightarrow>
     cosine_similarity a b =
       Inr (if sqrt (\<Sum>x \<leftarrow> a. x * x) * sqrt (\<Sum>y \<leftarrow> b. y * y) = 0 then NaN
            else Num ((\<Sum>(x, y) \<leftarrow> zip a b. x * y)
                       / (sqrt (\<Sum>x \<leftarrow> a. x * x) * sqrt (\<Sum>y \<leftarrow> b. y * y))))"
  by (simp add: cosine_similarity_def np_dot_def np_norm_def Let_def)

text \<open>
  Claim C8, as stated: every stored score is the cosine similarity of the two vectors, and
  in particular a vector scored against itself gives 1.0. It fails for a vector of norm
  zero: dot product and divisor are both zero, and the stored score is not-a-number.
\<close>

theorem zero_vector_counterexample:
  "compare_speakers [(''A'', [0, 0])] [(''A'', [0, 0])] = Inr [(''A'', [(''A'', NaN)])]
   \<and> NaN \<noteq> Num 1"
  by (simp add: compare_speakers_def cosine_similarity_def np_dot_def np_norm_def)

text \<open>
  Claim C8, amended: for two fingerprint sets whose vectors all have one dimension, the
  table has one row per candidate and one column per reference, in the order of the two
  sets, and the score of a pair is \<open>dot(a,b) / (||a|| * ||b||)\<close>, which is not-a-number
  when one of the two norms is zero; a vector of non-zero norm scored against itself gives
  1 and against its negation gives -1.
\<close>

theorem compare_speakers_cosine:
  assumes "distinct (map fst embeddings1)" and "distinct (map fst embeddings2)"
    and "\<forall>(speaker1, a) \<in> set embeddings1. \<forall>(speaker2, b) \<in> set embeddings2. length b = length a"
  shows "compare_speakers embeddings1 embeddings2 =
           Inr (map (\<lambda>(speaker1, a).
                  (speaker1,
                   map (\<lambda>(speaker2, b).
                     (speaker2,
                      if sqrt (\<Sum>x \<leftarrow> a. x * x) * sqrt (\<Sum>y \<leftarrow> b. y * y) = 0 then NaN
                      else Num ((\<Sum>(x, y) \<leftarrow> zip a b. x * y)
                                 / (sqrt (\<Sum>x \<leftarrow> a. x * x) * sqrt (\<Sum>y \<leftarrow> b. y * y)))))
                     embeddings2))
                embeddings1)
         \<and> (\<forall>v. np_norm v \<noteq> 0 \<longrightarrow>
               cosine_similarity v v = Inr (Num 1)
               \<and> cosine_similarity v (map uminus v) = Inr (Num (- 1)))"
proof -
  have "compare_loop embeddings1 embeddings2 [] =
      Inr ([] @ map (\<lambda>(speaker1, a).
                  (speaker1,
                   map (\<lambda>(speaker2, b).
                     (speaker2,
                      if sqrt (\<Sum>x \<leftarrow> a. x * x) * sqrt (\<Sum>y \<leftarrow> b. y * y) = 0 then NaN
                      else Num ((\<Sum>(x, y) \<leftarrow> zip a b. x * y)
                                 / (sqrt (\<Sum>x \<leftarrow> a. x * x) * sqrt (\<Sum>y \<leftarrow> b. y * y)))))
                     embeddings2))
                embeddings1)"
  proof (rule compare_loop_eq)
    show "distinct (map fst embeddings1 @ map fst [])" using assms(1) by simp
    show "distinct (map fst embeddings2)" by (rule assms(2))
    fix s1 a s2 b
    assume "(s1, a) \<in> set embeddings1" and "(s2, b) \<in> set embeddings2"
    with assms(3) have "length b = length a" by fastforce
    then show "cosine_similarity a b =
        Inr (if sqrt (\<Sum>x \<leftarrow> a. x * x) * sqrt (\<Sum>y \<leftarrow> b. y * y) = 0 then NaN
             else Num ((\<Sum>(x, y) \<leftarrow> zip a b. x * y)
                        / (sqrt (\<Sum>x \<leftarrow> a. x * x) * sqrt (\<Sum>y \<leftarrow> b. y * y))))"
      by (rule cosine_similarity_eq)
  qed
  then show ?thesis
    by (simp add: compare_speakers_def cosine_self cosine_neg)
qed

theorem compare_speakers_cosine_witness:
  "compare_speakers [(''S1'', [1, 0]), (''S2'', [0, 1])] [(''Alice'', [1, 0]), (''Bob'', [- 1, 0])]
     = Inr [(''S1'', [(''Alice'', Num 1), (''Bob'', Num (- 1))]),
            (''S2'', [(''Alice'', Num 0), (''Bob'', Num 0)])]
   \<and> cosine_similarity [1, 0] [1, 0] = Inr (Num 1)
   \<and> cosine_similarity [1, 0] (map uminus [1, 0]) = Inr (Num (- 1))"
proof -
  let ?e1 = "[(''S1'', [1, 0 :: real]), (''S2'', [0, 1])]"
  let ?e2 = "[(''Alice'', [1, 0 :: real]), (''Bob'', [- 1, 0])]"
  have h: "distinct (map fst ?e1)" "distinct (map fst ?e2)"
    "\<forall>(speaker1, a) \<in> set ?e1. \<forall>(speaker2, b) \<in> set ?e2. length b = length a"
    by simp_all
  have n: "np_norm [1, 0] \<noteq> 0" by (simp add: np_norm_def)
  from compare_speakers_cosine[OF h]
  have table: "compare_speakers ?e1 ?e2
      = Inr [(''S1'', [(''Alice'', Num 1), (''Bob'', Num (- 1))]),
             (''S2'', [(''Alice'', Num 0), (''Bob'', Num 0)])]"
    and self: "\<And>v. np_norm v \<noteq> 0 \<Longrightarrow>
      cosine_similarity v v = Inr (Num 1)
      \<and> cosine_similarity v (map uminus v) = Inr (Num (- 1))"
    by simp_all
  from table self[OF n] show ?thesis by simp
qed

section \<open>Properties of create_speaker_embeddings\<close>

subsection \<open>Grouping\<close>

lemma map_of_append_segment:
  "map_of (append_segment s x d) =
     (map_of d)(s \<mapsto> (case map_of d s of None \<Rightarrow> [x] | Some l \<Rightarrow> l @ [x]))"
  by (induction d) (auto simp: fun_eq_iff)

lemma keys_append_segment: "fst ` set (append_segment s x d) = insert s (fst ` set d)"
  by (induction d) force+

lemma distinct_append_segment:
  "distinct (map fst d) \<Longrightarrow> distinct (map fst (append_segment s x d))"
  by (induction d) (auto simp: keys_append_segment)

lemma group_words_snoc: "group_words (ws @ [w]) = group_word (group_words ws) w"
  by (simp add: group_words_def)

lemma distinct_group_words: "distinct (map fst (group_words ws))"
proof (induction ws rule: rev_induct)
  case Nil
  then show ?case by (simp add: group_words_def)
next
  case (snoc w ws)
  then show ?case
    by (simp add: group_words_snoc group_word_def Let_def distinct_append_segment)
qed

lemma map_of_group_words:
  "map_of (group_words ws) s =
     (if s \<noteq> ''UNKNOWN'' \<and> (\<exists>w \<in> set ws. speaker_of w = s)
      then Some (map word_segment [w \<leftarrow> ws. speaker_of w = s]) else None)"
proof (induction ws rule: rev_induct)
  case Nil
  then show ?case by (simp add: group_words_def)
next
  case (snoc w ws)
  show ?case
  proof (cases "speaker_of w = ''UNKNOWN''")
    case True
    with snoc show ?thesis
      by (auto simp: group_words_snoc group_word_def)
  next
    case False
    with snoc show ?thesis
      by (auto simp: group_words_snoc group_word_def Let_def map_of_append_segment
          filter_empty_conv)
  qed
qed

lemma keys_group_words:
  "fst ` set (group_words ws) = {s. s \<noteq> ''UNKNOWN'' \<and> (\<exists>w \<in> set ws. speaker_of w = s)}"
proof -
  have "fst ` set (group_words ws) = dom (map_of (group_words ws))"
    by (simp add: dom_map_of_conv_image_fst)
  also have "\<dots> = {s. s \<noteq> ''UNKNOWN'' \<and> (\<exists>w \<in> set ws. speaker_of w = s)}"
    by (auto simp: map_of_group_words dom_def)
  finally show ?thesis .
qed

subsection \<open>The loops as list functions\<close>

lemma embed_loop_eq:
  "embed_loop W v s ius embs evs =
     (embs @ List.map_filter (\<lambda>(i, u). fst (embed_segment W v s i u)) ius,
      evs @ concat (map (\<lambda>(i, u). snd (embed_segment W v s i u)) ius))"
proof (induction ius arbitrary: embs evs)
  case Nil
  then show ?case by simp
next
  case (Cons p ius)
  obtain i u where p: "p = (i, u)" by (cases p)
  obtain r es where r: "embed_segment W v s i u = (r, es)" by (cases "embed_segment W v s i u")
  show ?case by (cases r) (simp_all add: p r Cons)
qed

lemma speakers_loop_eq:
  assumes "distinct (map fst d @ map fst acc)"
  shows "speakers_loop W v d acc evs =
     (acc @ List.map_filter (\<lambda>(s, segs). map_option (Pair s) (fst (process_speaker W v s segs))) d,
      evs @ concat (map (\<lambda>(s, segs). snd (process_speaker W v s segs)) d))"
  using assms
proof (induction d arbitrary: acc evs)
  case Nil
  then show ?case by simp
next
  case (Cons p d)
  obtain s segs where p: "p = (s, segs)" by (cases p)
  obtain r es where r: "process_speaker W v s segs = (r, es)"
    by (cases "process_speaker W v s segs")
  from Cons.prems p have fresh: "s \<notin> fst ` set acc" by auto
  show ?case
  proof (cases r)
    case None
    from Cons.prems p have "distinct (map fst d @ map fst acc)" by simp
    from Cons.IH[OF this] show ?thesis by (simp add: p r None)
  next
    case (Some e)
    from Cons.prems p have "distinct (map fst d @ map fst (acc @ [(s, e)]))" by auto
    from Cons.IH[OF this] show ?thesis
      by (simp add: p r Some dict_set_fresh[OF fresh])
  qed
qed

lemma map_of_map_filter_entries:
  assumes "distinct (map fst d)"
  shows "map_of (List.map_filter (\<lambda>(s, x). map_option (Pair s) (f s x)) d) k =
           (case map_of d k of None \<Rightarrow> None | Some x \<Rightarrow> f k x)"
  using assms
proof (induction d)
  case Nil
  then show ?case by simp
next
  case (Cons p d)
  obtain s x where p: "p = (s, x)" by (cases p)
  from Cons.prems p have "s \<notin> fst ` set d" and d: "distinct (map fst d)" by auto
  then have none: "map_of d s = None" by (simp add: map_of_eq_None_iff)
  from Cons.IH[OF d] none show ?case
    by (cases "f s x") (auto simp: p)
qed

lemma create_embeddings_eq:
  "fst (create_speaker_embeddings W v ws) =
     List.map_filter (\<lambda>(s, segs). map_option (Pair s) (fst (process_speaker W v s segs)))
       (group_words ws)"
  using speakers_loop_eq[of "group_words ws" "[]" W v "[]"] distinct_group_words[of ws]
  by (simp add: create_speaker_embeddings_def)

lemma create_events_eq:
  "snd (create_speaker_embeddings W v ws) =
     concat (map (\<lambda>(s, segs). snd (process_speaker W v s segs)) (group_words ws))"
  using speakers_loop_eq[of "group_words ws" "[]" W v "[]"] distinct_group_words[of ws]
  by (simp add: create_speaker_embeddings_def)

lemma create_lookup:
  "map_of (fst (create_speaker_embeddings W v ws)) s =
     (if s \<noteq> ''UNKNOWN'' \<and> (\<exists>w \<in> set ws. speaker_of w = s)
      then fst (process_speaker W v s (map word_segment [w \<leftarrow> ws. speaker_of w = s]))
      else None)"
  by (simp add: create_embeddings_eq map_of_map_filter_entries[OF distinct_group_words]
      map_of_group_words)

lemma map_filter_append: "List.map_filter f (xs @ ys) = List.map_filter f xs @ List.map_filter f ys"
  by (simp add: List.map_filter_def)

lemma map_filter_concat: "List.map_filter f (concat xss) = concat (map (List.map_filter f) xss)"
  by (induction xss) (simp_all add: map_filter_append)

lemma process_speaker_fst:
  "fst (process_speaker W v s segs) =
     (if collected_vectors W v s segs = [] then None
      else Some (np_mean_axis0 (collected_vectors W v s segs)))"
  by (simp add: process_speaker_def Let_def embed_loop_eq)

lemma embed_segment_calls:
  "List.map_filter (extract_call s) (snd (embed_segment W v s' i u)) =
     (if s' = s then [(i, seg_start u, seg_end u)] else [])"
  by (simp add: embed_segment_def Let_def split: outcome.splits)

lemma embed_calls:
  "concat (map (List.map_filter (extract_call s) \<circ> (\<lambda>(i, u). snd (embed_segment W v s' i u))) ius) =
     (if s' = s then map (\<lambda>(i, u). (i, seg_start u, seg_end u)) ius else [])"
  by (induction ius) (auto simp: embed_segment_calls)

lemma process_speaker_calls:
  "List.map_filter (extract_call s) (snd (process_speaker W v s' segs)) =
     (if s' = s then map (\<lambda>(i, u). (i, seg_start u, seg_end u)) (selected_utterances segs) else [])"
  unfolding process_speaker_def Let_def embed_loop_eq
  by (simp add: map_filter_append map_filter_concat embed_calls)

lemma concat_only_key:
  assumes "distinct (map fst d)" and "\<forall>(k, x) \<in> set d. k \<noteq> s \<longrightarrow> g k x = []"
  shows "concat (map (\<lambda>(k, x). g k x) d) = (case map_of d s of None \<Rightarrow> [] | Some x \<Rightarrow> g s x)"
  using assms
proof (induction d)
  case Nil
  then show ?case by simp
next
  case (Cons p d)
  obtain k x where p: "p = (k, x)" by (cases p)
  from Cons.prems p have d: "distinct (map fst d)" and fresh: "k \<notin> fst ` set d"
    and rest: "\<forall>(k, x) \<in> set d. k \<noteq> s \<longrightarrow> g k x = []" by auto
  show ?case
  proof (cases "k = s")
    case True
    with fresh have "map_of d s = None" by (simp add: map_of_eq_None_iff)
    moreover have "g a b = []" if "(a, b) \<in> set d" for a b
    proof -
      from that fresh True have "a \<noteq> s" by force
      with rest that show ?thesis by blast
    qed
    then have "concat (map (\<lambda>(k, x). g k x) d) = []" by auto
    ultimately show ?thesis using True p by simp
  next
    case False
    with Cons.prems(2) p have "g k x = []" by auto
    with Cons.IH[OF d rest] False p show ?thesis by simp
  qed
qed

lemma create_calls:
  "List.map_filter (extract_call s) (snd (create_speaker_embeddings W v ws)) =
     (if s = ''UNKNOWN'' then []
      else map (\<lambda>(i, u). (i, seg_start u, seg_end u)) (selected_utterances (speaker_spans s ws)))"
proof -
  let ?g = "\<lambda>k x. List.map_filter (extract_call s) (snd (process_speaker W v k x))"
  have c: "(List.map_filter (extract_call s) \<circ> (\<lambda>(k, x). snd (process_speaker W v k x)))
        = (\<lambda>(k, x). ?g k x)"
    by (simp add: fun_eq_iff)
  have "List.map_filter (extract_call s) (snd (create_speaker_embeddings W v ws))
      = concat (map (\<lambda>(k, x). ?g k x) (group_words ws))"
    by (simp add: create_events_eq map_filter_concat c)
  also have "\<dots> = (case map_of (group_words ws) s of None \<Rightarrow> [] | Some x \<Rightarrow> ?g s x)"
    by (rule concat_only_key[OF distinct_group_words]) (simp add: process_speaker_calls)
  also have "\<dots> = (if s = ''UNKNOWN'' then []
      else map (\<lambda>(i, u). (i, seg_start u, seg_end u)) (selected_utterances (speaker_spans s ws)))"
    by (auto simp: map_of_group_words process_speaker_calls filter_empty_conv
        merge_segments_def merge_loop_def)
  finally show ?thesis .
qed

lemma embed_segment_no_created:
  "List.map_filter (created_count s) (snd (embed_segment W v s' i u)) = []"
  by (simp add: embed_segment_def Let_def split: outcome.splits)

lemma embed_no_created:
  "concat (map (List.map_filter (created_count s) \<circ> (\<lambda>(i, u). snd (embed_segment W v s' i u))) ius)
     = []"
  by (induction ius) (auto simp: embed_segment_no_created)

lemma process_speaker_count:
  "List.map_filter (created_count s) (snd (process_speaker W v s' segs)) =
     (if s' = s \<and> collected_vectors W v s' segs \<noteq> []
      then [length (collected_vectors W v s' segs)] else [])"
  unfolding process_speaker_def Let_def embed_loop_eq
  by (simp add: map_filter_append map_filter_concat embed_no_created)

lemma create_count:
  "List.map_filter (created_count s) (snd (create_speaker_embeddings W v ws)) =
     (if s \<noteq> ''UNKNOWN'' \<and> collected_vectors W v s (speaker_spans s ws) \<noteq> []
      then [length (collected_vectors W v s (speaker_spans s ws))] else [])"
proof -
  let ?g = "\<lambda>k x. List.map_filter (created_count s) (snd (process_speaker W v k x))"
  have c: "(List.map_filter (created_count s) \<circ> (\<lambda>(k, x). snd (process_speaker W v k x)))
        = (\<lambda>(k, x). ?g k x)"
    by (simp add: fun_eq_iff)
  have "List.map_filter (created_count s) (snd (create_speaker_embeddings W v ws))
      = concat (map (\<lambda>(k, x). ?g k x) (group_words ws))"
    by (simp add: create_events_eq map_filter_concat c)
  also have "\<dots> = (case map_of (group_words ws) s of None \<Rightarrow> [] | Some x \<Rightarrow> ?g s x)"
    by (rule concat_only_key[OF distinct_group_words]) (simp add: process_speaker_count)
  also have "\<dots> = (if s \<noteq> ''UNKNOWN'' \<and> collected_vectors W v s (speaker_spans s ws) \<noteq> []
      then [length (collected_vectors W v s (speaker_spans s ws))] else [])"
  proof (cases "s \<noteq> ''UNKNOWN'' \<and> (\<exists>w \<in> set ws. speaker_of w = s)")
    case True
    then show ?thesis by (simp add: map_of_group_words process_speaker_count)
  next
    case False
    then have none: "map_of (group_words ws) s = None" by (simp add: map_of_group_words)
    have "s = ''UNKNOWN'' \<or> collected_vectors W v s (speaker_spans s ws) = []"
    proof (cases "s = ''UNKNOWN''")
      case True
      then show ?thesis by simp
    next
      case ne: False
      with False have "speaker_spans s ws = []" by (auto simp: filter_empty_conv)
      then show ?thesis by (simp add: merge_segments_def merge_loop_def)
    qed
    with none show ?thesis by auto
  qed
  finally show ?thesis .
qed

subsection \<open>The mean of the collected vectors\<close>

lemma length_vec_add: "length (vec_add a b) = min (length a) (length b)"
  by (simp add: vec_add_def)

lemma nth_vec_add: "j < length a \<Longrightarrow> j < length b \<Longrightarrow> vec_add a b ! j = a ! j + b ! j"
  by (simp add: vec_add_def)

lemma foldl_vec_add:
  assumes "length r = D" and "\<forall>e \<in> set rs. length e = D"
  shows "length (foldl vec_add r rs) = D
         \<and> (\<forall>j < D. foldl vec_add r rs ! j = r ! j + (\<Sum>e \<leftarrow> rs. e ! j))"
  using assms
proof (induction rs arbitrary: r)
  case Nil
  then show ?case by simp
next
  case (Cons e rs)
  then have len: "length (vec_add r e) = D" and rest: "\<forall>e \<in> set rs. length e = D"
    by (simp_all add: length_vec_add)
  from Cons.IH[OF len rest] Cons.prems show ?case
    by (simp add: nth_vec_add add.assoc)
qed

lemma np_mean_axis0_nth:
  assumes "rows \<noteq> []" and "\<forall>e \<in> set rows. length e = D"
  shows "length (np_mean_axis0 rows) = D
         \<and> (\<forall>j < D. np_mean_axis0 rows ! j = (\<Sum>e \<leftarrow> rows. e ! j) / real (length rows))"
proof -
  from assms(1) obtain r rs where rows: "rows = r # rs" by (cases rows) auto
  with assms(2) have "length r = D" and "\<forall>e \<in> set rs. length e = D" by auto
  from foldl_vec_add[OF this] show ?thesis
    by (simp add: np_mean_axis0_def rows)
qed

lemma str_nat_small:
  "str_nat 0 = ''0''" "str_nat (Suc 0) = ''1''" "str_nat (Suc (Suc 0)) = ''2''"
  "str_nat (Suc (Suc (Suc 0))) = ''3''" "str_nat (Suc (Suc (Suc (Suc 0)))) = ''4''"
  by code_simp+

text \<open>
  Claim C4, as stated: the fingerprint is the elementwise mean of the collected vectors and
  its sourceCount is the number of vectors averaged. The function returns the vector alone
  (lines 137 and 142): below, \<open>S1\<close> averages three vectors and \<open>S2\<close> one, and the two
  fingerprints returned are the same list; the numbers 3 and 1 are only in the messages
  printed.
\<close>

theorem source_count_counterexample:
  "create_speaker_embeddings
      \<lparr>run_ffmpeg = (\<lambda>video a b out. Completed True 32044),
       preprocess_wav = (\<lambda>p. if p = ''/tmp/t/S1_0.wav'' then Returned [1]
                              else if p = ''/tmp/t/S1_1.wav'' then Returned [2]
                              else if p = ''/tmp/t/S1_2.wav'' then Returned [3] else Returned [4]),
       embed_utterance = (\<lambda>wav. if wav = [1] then Returned [3, 0]
                                 else if wav = [2] then Returned [0, 3]
                                 else if wav = [3] then Returned [3, 3] else Returned [2, 2]),
       temp_dir = ''/tmp/t''\<rparr>
      ''film.mp4''
      [\<lparr>w_speaker = Some ''S1'', w_startMs = Some 0, w_start = None, w_endMs = Some 1000,
        w_end = None, w_text = Some ''a'', w_word = None\<rparr>,
       \<lparr>w_speaker = Some ''S1'', w_startMs = Some 2000, w_start = None, w_endMs = Some 3000,
        w_end = None, w_text = Some ''b'', w_word = None\<rparr>,
       \<lparr>w_speaker = Some ''S1'', w_startMs = Some 4000, w_start = None, w_endMs = Some 5000,
        w_end = None, w_text = Some ''c'', w_word = None\<rparr>,
       \<lparr>w_speaker = Some ''S2'', w_startMs = Some 6000, w_start = None, w_endMs = Some 7000,
        w_end = None, w_text = Some ''d'', w_word = None\<rparr>]
   = ([(''S1'', [2, 2]), (''S2'', [2, 2])],
      [Extract ''S1'' 0 0 1000, Extract ''S1'' 1 2000 3000, Extract ''S1'' 2 4000 5000,
       Print_created ''S1'' 3, Extract ''S2'' 0 6000 7000, Print_created ''S2'' 1])"
  by (simp add: create_speaker_embeddings_def group_words_def group_word_def word_segment_def
      get_default_def process_speaker_def merge_segments_def merge_loop_def embed_segment_def
      extract_audio_segment_def audio_path_of_def str_nat_small np_mean_axis0_def vec_add_def
      del: str_nat.simps)

text \<open>
  Claim C4, amended: for every speaker other than \<open>UNKNOWN\<close> whose selected utterances
  yield the non-empty list \<open>vs\<close> of vectors, all of one length \<open>D\<close>, the fingerprint stored
  for the speaker is \<open>np_mean_axis0 vs\<close>: it has length \<open>D\<close> and its component \<open>j\<close> is the sum
  of the components \<open>j\<close> of the vectors divided by their number (for three vectors
  \<open>(v1 + v2 + v3) / 3\<close>). The fingerprint is the vector alone, without a sourceCount; the
  number of vectors averaged is printed, in exactly one message for the speaker
  (line 138).
\<close>

theorem fingerprint_is_mean:
  assumes "s \<noteq> ''UNKNOWN''"
    and "collected_vectors W v s (speaker_spans s ws) = vs"
    and "vs \<noteq> []"
    and "\<forall>e \<in> set vs. length e = D"
  shows "\<exists>fp. map_of (fst (create_speaker_embeddings W v ws)) s = Some fp
           \<and> fp = np_mean_axis0 vs
           \<and> length fp = D
           \<and> (\<forall>j < D. fp ! j = (\<Sum>e \<leftarrow> vs. e ! j) / real (length vs))
           \<and> (\<forall>v1 v2 v3. vs = [v1, v2, v3] \<longrightarrow>
                 (\<forall>j < D. fp ! j = (v1 ! j + v2 ! j + v3 ! j) / 3))
           \<and> List.map_filter (created_count s) (snd (create_speaker_embeddings W v ws))
               = [length vs]"
proof -
  have ex: "\<exists>w \<in> set ws. speaker_of w = s"
  proof (rule ccontr)
    assume "\<not> ?thesis"
    then have "speaker_spans s ws = []" by (auto simp: filter_empty_conv)
    then have "collected_vectors W v s (speaker_spans s ws) = []"
      by (simp add: merge_segments_def merge_loop_def)
    with assms(2,3) show False by simp
  qed
  have fp: "map_of (fst (create_speaker_embeddings W v ws)) s = Some (np_mean_axis0 vs)"
    using assms(1,2,3) ex by (simp add: create_lookup process_speaker_fst)
  note m = np_mean_axis0_nth[OF assms(3,4)]
  have three: "np_mean_axis0 vs ! j = (v1 ! j + v2 ! j + v3 ! j) / 3"
    if "vs = [v1, v2, v3]" and "j < D" for v1 v2 v3 j
    using m that by simp
  have "List.map_filter (created_count s) (snd (create_speaker_embeddings W v ws)) = [length vs]"
    unfolding create_count using assms(1,2,3) by simp
  with fp m three show ?thesis by blast
qed

theorem fingerprint_is_mean_witness:
  "map_of (fst (create_speaker_embeddings
      \<lparr>run_ffmpeg = (\<lambda>video a b out. Completed True 32044),
       preprocess_wav = (\<lambda>p. if p = ''/tmp/t/S1_0.wav'' then Returned [1]
                              else if p = ''/tmp/t/S1_1.wav'' then Returned [2] else Returned [3]),
       embed_utterance = (\<lambda>wav. if wav = [1] then Returned [3, 0]
                                 else if wav = [2] then Returned [0, 3] else Returned [3, 3]),
       temp_dir = ''/tmp/t''\<rparr>
      ''film.mp4''
      [\<lparr>w_speaker = Some ''S1'', w_startMs = Some 0, w_start = None, w_endMs = Some 1000,
        w_end = None, w_text = Some ''a'', w_word = None\<rparr>,
       \<lparr>w_speaker = Some ''S1'', w_startMs = Some 2000, w_start = None, w_endMs = Some 3000,
        w_end = None, w_text = Some ''b'', w_word = None\<rparr>,
       \<lparr>w_speaker = Some ''S1'', w_startMs = Some 4000, w_start = None, w_endMs = Some 5000,
        w_end = None, w_text = Some ''c'', w_word = None\<rparr>])) ''S1'' = Some [2, 2]
   \<and> List.map_filter (created_count ''S1'') (snd (create_speaker_embeddings
      \<lparr>run_ffmpeg = (\<lambda>video a b out. Completed True 32044),
       preprocess_wav = (\<lambda>p. if p = ''/tmp/t/S1_0.wav'' then Returned [1]
                              else if p = ''/tmp/t/S1_1.wav'' then Returned [2] else Returned [3]),
       embed_utterance = (\<lambda>wav. if wav = [1] then Returned [3, 0]
                                 else if wav = [2] then Returned [0, 3] else Returned [3, 3]),
       temp_dir = ''/tmp/t''\<rparr>
      ''film.mp4''
      [\<lparr>w_speaker = Some ''S1'', w_startMs = Some 0, w_start = None, w_endMs = Some 1000,
        w_end = None, w_text = Some ''a'', w_word = None\<rparr>,
       \<lparr>w_speaker = Some ''S1'', w_startMs = Some 2000, w_start = None, w_endMs = Some 3000,
        w_end = None, w_text = Some ''b'', w_word = None\<rparr>,
       \<lparr>w_speaker = Some ''S1'', w_startMs = Some 4000, w_start = None, w_endMs = Some 5000,
        w_end = None, w_text = Some ''c'', w_word = None\<rparr>])) = [3]"
proof -
  let ?W = "\<lparr>run_ffmpeg = (\<lambda>video a b out. Completed True 32044),
       preprocess_wav = (\<lambda>p. if p = ''/tmp/t/S1_0.wav'' then Returned [1]
                              else if p = ''/tmp/t/S1_1.wav'' then Returned [2] else Returned [3]),
       embed_utterance = (\<lambda>wav. if wav = [1] then Returned [3, 0]
                                 else if wav = [2] then Returned [0, 3] else Returned [3, 3]),
       temp_dir = ''/tmp/t''\<rparr>"
  let ?ws = "[\<lparr>w_speaker = Some ''S1'', w_startMs = Some 0, w_start = None, w_endMs = Some 1000,
        w_end = None, w_text = Some ''a'', w_word = None\<rparr>,
       \<lparr>w_speaker = Some ''S1'', w_startMs = Some 2000, w_start = None, w_endMs = Some 3000,
        w_end = None, w_text = Some ''b'', w_word = None\<rparr>,
       \<lparr>w_speaker = Some ''S1'', w_startMs = Some 4000, w_start = None, w_endMs = Some 5000,
        w_end = None, w_text = Some ''c'', w_word = None\<rparr>]"
  have h1: "''S1'' \<noteq> ''UNKNOWN''" by simp
  have h2: "collected_vectors ?W ''film.mp4'' ''S1'' (speaker_spans ''S1'' ?ws)
              = [[3, 0], [0, 3], [3, 3]]"
    by (simp add: merge_segments_def merge_loop_def word_segment_def get_default_def
        embed_segment_def extract_audio_segment_def audio_path_of_def str_nat_small
        del: str_nat.simps)
  have h3: "[[3, 0], [0, 3], [3, 3 :: real]] \<noteq> []" by simp
  have h4: "\<forall>e \<in> set [[3, 0], [0, 3], [3, 3 :: real]]. length e = 2" by simp
  from fingerprint_is_mean[OF h1 h2 h3 h4] obtain fp where
    fp: "map_of (fst (create_speaker_embeddings ?W ''film.mp4'' ?ws)) ''S1'' = Some fp"
    and mean: "fp = np_mean_axis0 [[3, 0], [0, 3], [3, 3]]"
    and created: "List.map_filter (created_count ''S1'')
        (snd (create_speaker_embeddings ?W ''film.mp4'' ?ws))
        = [length [[3, 0], [0, 3], [3, 3 :: real]]]"
    by blast
  have "np_mean_axis0 [[3, 0], [0, 3], [3, 3]] = [2, 2]"
    by (simp add: np_mean_axis0_def vec_add_def)
  with fp mean created show ?thesis by (simp add: numeral_3_eq_3)
qed

subsection \<open>Failing utterances and the keys of the result\<close>

lemma embed_segment_Some_iff:
  "fst (embed_segment W v s i u) = Some e \<longleftrightarrow>
     extract_audio_segment W v (seg_start u) (seg_end u) (audio_path_of W s i)
     \<and> (\<exists>wav. preprocess_wav W (audio_path_of W s i) = Returned wav \<and> wav \<noteq> []
            \<and> embed_utterance W wav = Returned e)"
  by (auto simp: embed_segment_def Let_def split: outcome.splits)

lemma embed_segment_ex_Some_iff:
  "(\<exists>e. fst (embed_segment W v s i u) = Some e) \<longleftrightarrow>
     extract_audio_segment W v (seg_start u) (seg_end u) (audio_path_of W s i)
     \<and> (\<exists>wav. preprocess_wav W (audio_path_of W s i) = Returned wav \<and> wav \<noteq> []
            \<and> (\<exists>e. embed_utterance W wav = Returned e))"
  by (auto simp: embed_segment_def Let_def split: outcome.splits)

lemma embed_segment_failure:
  assumes "\<not> extract_audio_segment W v (seg_start u) (seg_end u) (audio_path_of W s i)
           \<or> preprocess_wav W (audio_path_of W s i) = Raised
           \<or> (\<exists>wav. preprocess_wav W (audio_path_of W s i) = Returned wav
                  \<and> embed_utterance W wav = Raised)"
  shows "fst (embed_segment W v s i u) = None"
  using assms by (auto simp: embed_segment_def Let_def split: outcome.splits)

lemma map_filter_cong_set:
  "(\<And>x. x \<in> set xs \<Longrightarrow> f x = g x) \<Longrightarrow> List.map_filter f xs = List.map_filter g xs"
  by (induction xs) (auto split: option.splits)

lemma map_filter_nonempty_iff:
  "List.map_filter f xs \<noteq> [] \<longleftrightarrow> (\<exists>x \<in> set xs. f x \<noteq> None)"
  by (induction xs) (auto simp: split: option.splits)

lemma enumerate_index_unique:
  "(i, u) \<in> set (enumerate n xs) \<Longrightarrow> (i, u') \<in> set (enumerate n xs) \<Longrightarrow> u' = u"
  by (auto simp: in_set_enumerate_eq)

text \<open>
  Claim C6. If for the selected utterance of index \<open>j\<close> of a speaker the extraction
  returns false, or \<open>preprocess_wav\<close> raises, or the encoder raises, the speaker's
  fingerprint is the mean of the vectors of the other selected utterances (none if there
  is no such vector), and every selected utterance, those after the failing one included,
  is still passed to the extraction.
\<close>

theorem failure_isolation:
  assumes "s \<noteq> ''UNKNOWN''"
    and "(j, u) \<in> set (selected_utterances (speaker_spans s ws))"
    and "\<not> extract_audio_segment W v (seg_start u) (seg_end u) (audio_path_of W s j)
         \<or> preprocess_wav W (audio_path_of W s j) = Raised
         \<or> (\<exists>wav. preprocess_wav W (audio_path_of W s j) = Returned wav
                \<and> embed_utterance W wav = Raised)"
  shows "map_of (fst (create_speaker_embeddings W v ws)) s =
           (let vs = List.map_filter
                       (\<lambda>(i, u'). if i = j then None else fst (embed_segment W v s i u'))
                       (selected_utterances (speaker_spans s ws))
            in if vs = [] then None else Some (np_mean_axis0 vs))
         \<and> List.map_filter (extract_call s) (snd (create_speaker_embeddings W v ws)) =
             map (\<lambda>(i, u'). (i, seg_start u', seg_end u'))
               (selected_utterances (speaker_spans s ws))"
proof -
  let ?sel = "selected_utterances (speaker_spans s ws)"
  have none: "fst (embed_segment W v s j u) = None"
    using assms(3) by (rule embed_segment_failure)
  have same: "collected_vectors W v s (speaker_spans s ws) =
      List.map_filter (\<lambda>(i, u'). if i = j then None else fst (embed_segment W v s i u')) ?sel"
  proof (rule map_filter_cong_set)
    fix x assume x: "x \<in> set ?sel"
    obtain i u' where p: "x = (i, u')" by (cases x)
    show "(case x of (i, u) \<Rightarrow> fst (embed_segment W v s i u)) =
          (case x of (i, u') \<Rightarrow> if i = j then None else fst (embed_segment W v s i u'))"
    proof (cases "i = j")
      case True
      with x p have "(j, u') \<in> set ?sel" by simp
      with assms(2) have "u' = u" by (rule enumerate_index_unique)
      with True p none show ?thesis by simp
    next
      case False
      with p show ?thesis by simp
    qed
  qed
  have "speaker_spans s ws \<noteq> []"
  proof
    assume "speaker_spans s ws = []"
    then have "?sel = []" by (simp add: merge_segments_def merge_loop_def)
    with assms(2) show False by simp
  qed
  then have "\<exists>w \<in> set ws. speaker_of w = s" by (auto simp: filter_empty_conv)
  with assms(1) have "map_of (fst (create_speaker_embeddings W v ws)) s =
      (if collected_vectors W v s (speaker_spans s ws) = [] then None
       else Some (np_mean_axis0 (collected_vectors W v s (speaker_spans s ws))))"
    by (simp add: create_lookup process_speaker_fst)
  then show ?thesis
    unfolding same using assms(1) by (simp add: create_calls Let_def)
qed

theorem failure_isolation_witness:
  "map_of (fst (create_speaker_embeddings
      \<lparr>run_ffmpeg = (\<lambda>video a b out. if a = 2000 then CalledProcessError
                                      else Completed True 32044),
       preprocess_wav = (\<lambda>p. if p = ''/tmp/t/S1_0.wav'' then Returned [1] else Returned [2]),
       embed_utterance = (\<lambda>wav. if wav = [1] then Returned [1, 0] else Returned [0, 1]),
       temp_dir = ''/tmp/t''\<rparr>
      ''film.mp4''
      [\<lparr>w_speaker = Some ''S1'', w_startMs = Some 0, w_start = None, w_endMs = Some 1000,
        w_end = None, w_text = Some ''a'', w_word = None\<rparr>,
       \<lparr>w_speaker = Some ''S1'', w_startMs = Some 2000, w_start = None, w_endMs = Some 3000,
        w_end = None, w_text = Some ''b'', w_word = None\<rparr>,
       \<lparr>w_speaker = Some ''S1'', w_startMs = Some 4000, w_start = None, w_endMs = Some 5000,
        w_end = None, w_text = Some ''c'', w_word = None\<rparr>])) ''S1'' = Some [1 / 2, 1 / 2]
   \<and> List.map_filter (extract_call ''S1'') (snd (create_speaker_embeddings
      \<lparr>run_ffmpeg = (\<lambda>video a b out. if a = 2000 then CalledProcessError
                                      else Completed True 32044),
       preprocess_wav = (\<lambda>p. if p = ''/tmp/t/S1_0.wav'' then Returned [1] else Returned [2]),
       embed_utterance = (\<lambda>wav. if wav = [1] then Returned [1, 0] else Returned [0, 1]),
       temp_dir = ''/tmp/t''\<rparr>
      ''film.mp4''
      [\<lparr>w_speaker = Some ''S1'', w_startMs = Some 0, w_start = None, w_endMs = Some 1000,
        w_end = None, w_text = Some ''a'', w_word = None\<rparr>,
       \<lparr>w_speaker = Some ''S1'', w_startMs = Some 2000, w_start = None, w_endMs = Some 3000,
        w_end = None, w_text = Some ''b'', w_word = None\<rparr>,
       \<lparr>w_speaker = Some ''S1'', w_startMs = Some 4000, w_start = None, w_endMs = Some 5000,
        w_end = None, w_text = Some ''c'', w_word = None\<rparr>]))
     = [(0, 0, 1000), (1, 2000, 3000), (2, 4000, 5000)]"
proof -
  let ?W = "\<lparr>run_ffmpeg = (\<lambda>video a b out. if a = 2000 then CalledProcessError
                                      else Completed True 32044),
       preprocess_wav = (\<lambda>p. if p = ''/tmp/t/S1_0.wav'' then Returned [1] else Returned [2]),
       embed_utterance = (\<lambda>wav. if wav = [1] then Returned [1, 0] else Returned [0, 1]),
       temp_dir = ''/tmp/t''\<rparr>"
  let ?ws = "[\<lparr>w_speaker = Some ''S1'', w_startMs = Some 0, w_start = None, w_endMs = Some 1000,
        w_end = None, w_text = Some ''a'', w_word = None\<rparr>,
       \<lparr>w_speaker = Some ''S1'', w_startMs = Some 2000, w_start = None, w_endMs = Some 3000,
        w_end = None, w_text = Some ''b'', w_word = None\<rparr>,
       \<lparr>w_speaker = Some ''S1'', w_startMs = Some 4000, w_start = None, w_endMs = Some 5000,
        w_end = None, w_text = Some ''c'', w_word = None\<rparr>]"
  let ?u = "\<lparr>seg_start = 2000, seg_end = 3000, seg_text = ''b''\<rparr>"
  have sel: "selected_utterances (speaker_spans ''S1'' ?ws) =
      [(0, \<lparr>seg_start = 0, seg_end = 1000, seg_text = ''a''\<rparr>), (Suc 0, ?u),
       (Suc (Suc 0), \<lparr>seg_start = 4000, seg_end = 5000, seg_text = ''c''\<rparr>)]"
    by (simp add: merge_segments_def merge_loop_def word_segment_def get_default_def)
  have h1: "''S1'' \<noteq> ''UNKNOWN''" by simp
  have h2: "(Suc 0, ?u) \<in> set (selected_utterances (speaker_spans ''S1'' ?ws))"
    unfolding sel by simp
  have h3: "\<not> extract_audio_segment ?W ''film.mp4'' (seg_start ?u) (seg_end ?u)
                (audio_path_of ?W ''S1'' (Suc 0))
         \<or> preprocess_wav ?W (audio_path_of ?W ''S1'' (Suc 0)) = Raised
         \<or> (\<exists>wav. preprocess_wav ?W (audio_path_of ?W ''S1'' (Suc 0)) = Returned wav
                \<and> embed_utterance ?W wav = Raised)"
    by (simp add: extract_audio_segment_def)
  have vs: "List.map_filter
              (\<lambda>(i, u'). if i = Suc 0 then None else fst (embed_segment ?W ''film.mp4'' ''S1'' i u'))
              (selected_utterances (speaker_spans ''S1'' ?ws)) = [[1, 0], [0, 1]]"
    unfolding sel
    by (simp add: embed_segment_def extract_audio_segment_def audio_path_of_def str_nat_small
        del: str_nat.simps)
  have mean: "np_mean_axis0 [[1, 0], [0, 1]] = [1 / 2, 1 / 2]"
    by (simp add: np_mean_axis0_def vec_add_def)
  note r = failure_isolation[OF h1 h2 h3, unfolded vs, unfolded sel]
  then show ?thesis by (simp add: mean)
qed

lemma keys_map_filter_entries:
  "map fst (List.map_filter (\<lambda>(s, x). map_option (Pair s) (f s x)) d) =
     map fst [(s, x) \<leftarrow> d. f s x \<noteq> None]"
  by (induction d) (auto simp: split: option.splits)

lemma distinct_create_keys: "distinct (map fst (fst (create_speaker_embeddings W v ws)))"
  unfolding create_embeddings_eq keys_map_filter_entries
  using distinct_group_words[of ws] by (rule distinct_map_filter)

text \<open>
  Claim C7. The keys of the result are exactly the speakers other than \<open>UNKNOWN\<close> for
  which one selected utterance was extracted, read as a non-empty waveform and encoded;
  the keys are distinct, and the value of a key is the mean of the speaker's non-empty
  list of vectors.
\<close>

theorem fingerprint_keys:
  "fst ` set (fst (create_speaker_embeddings W v ws)) =
     {s. s \<noteq> ''UNKNOWN'' \<and>
         (\<exists>(i, u) \<in> set (selected_utterances (speaker_spans s ws)).
            extract_audio_segment W v (seg_start u) (seg_end u) (audio_path_of W s i)
            \<and> (\<exists>wav e. preprocess_wav W (audio_path_of W s i) = Returned wav \<and> wav \<noteq> []
                   \<and> embed_utterance W wav = Returned e))}
   \<and> distinct (map fst (fst (create_speaker_embeddings W v ws)))
   \<and> (\<forall>(s, fp) \<in> set (fst (create_speaker_embeddings W v ws)).
         collected_vectors W v s (speaker_spans s ws) \<noteq> []
         \<and> fp = np_mean_axis0 (collected_vectors W v s (speaker_spans s ws)))"
proof -
  have lookup: "map_of (fst (create_speaker_embeddings W v ws)) s =
      (if s \<noteq> ''UNKNOWN'' \<and> collected_vectors W v s (speaker_spans s ws) \<noteq> []
       then Some (np_mean_axis0 (collected_vectors W v s (speaker_spans s ws))) else None)" for s
  proof (cases "\<exists>w \<in> set ws. speaker_of w = s")
    case True
    then show ?thesis by (simp add: create_lookup process_speaker_fst)
  next
    case False
    then have "speaker_spans s ws = []" by (auto simp: filter_empty_conv)
    then have "collected_vectors W v s (speaker_spans s ws) = []"
      by (simp add: merge_segments_def merge_loop_def)
    with False show ?thesis by (simp add: create_lookup)
  qed
  have nonempty: "collected_vectors W v s (speaker_spans s ws) \<noteq> [] \<longleftrightarrow>
      (\<exists>(i, u) \<in> set (selected_utterances (speaker_spans s ws)).
            extract_audio_segment W v (seg_start u) (seg_end u) (audio_path_of W s i)
            \<and> (\<exists>wav e. preprocess_wav W (audio_path_of W s i) = Returned wav \<and> wav \<noteq> []
                   \<and> embed_utterance W wav = Returned e))" for s
    unfolding map_filter_nonempty_iff
    by (simp add: case_prod_beta embed_segment_ex_Some_iff)
  have "fst ` set (fst (create_speaker_embeddings W v ws))
      = dom (map_of (fst (create_speaker_embeddings W v ws)))"
    by (simp add: dom_map_of_conv_image_fst)
  also have "\<dots> = {s. s \<noteq> ''UNKNOWN'' \<and> collected_vectors W v s (speaker_spans s ws) \<noteq> []}"
    by (auto simp: lookup dom_def)
  finally have keys: "fst ` set (fst (create_speaker_embeddings W v ws)) =
     {s. s \<noteq> ''UNKNOWN'' \<and>
         (\<exists>(i, u) \<in> set (selected_utterances (speaker_spans s ws)).
            extract_audio_segment W v (seg_start u) (seg_end u) (audio_path_of W s i)
            \<and> (\<exists>wav e. preprocess_wav W (audio_path_of W s i) = Returned wav \<and> wav \<noteq> []
                   \<and> embed_utterance W wav = Returned e))}"
    unfolding nonempty .
  have vals: "collected_vectors W v s (speaker_spans s ws) \<noteq> []
         \<and> fp = np_mean_axis0 (collected_vectors W v s (speaker_spans s ws))"
    if "(s, fp) \<in> set (fst (create_speaker_embeddings W v ws))" for s fp
  proof -
    from that distinct_create_keys
    have "map_of (fst (create_speaker_embeddings W v ws)) s = Some fp" by simp
    then show ?thesis unfolding lookup by (auto split: if_splits)
  qed
  from vals have all: "\<forall>(s, fp) \<in> set (fst (create_speaker_embeddings W v ws)).
         collected_vectors W v s (speaker_spans s ws) \<noteq> []
         \<and> fp = np_mean_axis0 (collected_vectors W v s (speaker_spans s ws))"
    by blast
  show ?thesis
    by (rule conjI[OF keys conjI[OF distinct_create_keys all]])
qed

theorem fingerprint_keys_witness:
  "''S1'' \<in> fst ` set (fst (create_speaker_embeddings
      \<lparr>run_ffmpeg = (\<lambda>video a b out. if a = 7000 then CalledProcessError
                                      else Completed True 32044),
       preprocess_wav = (\<lambda>p. Returned [1]),
       embed_utterance = (\<lambda>wav. Returned [1, 0]),
       temp_dir = ''/tmp/t''\<rparr>
      ''film.mp4''
      [\<lparr>w_speaker = Some ''S1'', w_startMs = Some 0, w_start = None, w_endMs = Some 1000,
        w_end = None, w_text = Some ''a'', w_word = None\<rparr>,
       \<lparr>w_speaker = Some ''S2'', w_startMs = Some 7000, w_start = None, w_endMs = Some 9000,
        w_end = None, w_text = Some ''b'', w_word = None\<rparr>,
       \<lparr>w_speaker = None, w_startMs = Some 4000, w_start = None, w_endMs = Some 5000,
        w_end = None, w_text = Some ''c'', w_word = None\<rparr>]))
   \<and> ''S2'' \<notin> fst ` set (fst (create_speaker_embeddings
      \<lparr>run_ffmpeg = (\<lambda>video a b out. if a = 7000 then CalledProcessError
                                      else Completed True 32044),
       preprocess_wav = (\<lambda>p. Returned [1]),
       embed_utterance = (\<lambda>wav. Returned [1, 0]),
       temp_dir = ''/tmp/t''\<rparr>
      ''film.mp4''
      [\<lparr>w_speaker = Some ''S1'', w_startMs = Some 0, w_start = None, w_endMs = Some 1000,
        w_end = None, w_text = Some ''a'', w_word = None\<rparr>,
       \<lparr>w_speaker = Some ''S2'', w_startMs = Some 7000, w_start = None, w_endMs = Some 9000,
        w_end = None, w_text = Some ''b'', w_word = None\<rparr>,
       \<lparr>w_speaker = None, w_startMs = Some 4000, w_start = None, w_endMs = Some 5000,
        w_end = None, w_text = Some ''c'', w_word = None\<rparr>]))
   \<and> ''UNKNOWN'' \<notin> fst ` set (fst (create_speaker_embeddings
      \<lparr>run_ffmpeg = (\<lambda>video a b out. if a = 7000 then CalledProcessError
                                      else Completed True 32044),
       preprocess_wav = (\<lambda>p. Returned [1]),
       embed_utterance = (\<lambda>wav. Returned [1, 0]),
       temp_dir = ''/tmp/t''\<rparr>
      ''film.mp4''
      [\<lparr>w_speaker = Some ''S1'', w_startMs = Some 0, w_start = None, w_endMs = Some 1000,
        w_end = None, w_text = Some ''a'', w_word = None\<rparr>,
       \<lparr>w_speaker = Some ''S2'', w_startMs = Some 7000, w_start = None, w_endMs = Some 9000,
        w_end = None, w_text = Some ''b'', w_word = None\<rparr>,
       \<lparr>w_speaker = None, w_startMs = Some 4000, w_start = None, w_endMs = Some 5000,
        w_end = None, w_text = Some ''c'', w_word = None\<rparr>]))"
proof -
  let ?W = "\<lparr>run_ffmpeg = (\<lambda>video a b out. if a = 7000 then CalledProcessError
                                      else Completed True 32044),
       preprocess_wav = (\<lambda>p. Returned [1]),
       embed_utterance = (\<lambda>wav. Returned [1, 0]),
       temp_dir = ''/tmp/t''\<rparr>"
  let ?ws = "[\<lparr>w_speaker = Some ''S1'', w_startMs = Some 0, w_start = None, w_endMs = Some 1000,
        w_end = None, w_text = Some ''a'', w_word = None\<rparr>,
       \<lparr>w_speaker = Some ''S2'', w_startMs = Some 7000, w_start = None, w_endMs = Some 9000,
        w_end = None, w_text = Some ''b'', w_word = None\<rparr>,
       \<lparr>w_speaker = None, w_startMs = Some 4000, w_start = None, w_endMs = Some 5000,
        w_end = None, w_text = Some ''c'', w_word = None\<rparr>]"
  note keys = fingerprint_keys[of ?W "''film.mp4''" ?ws, THEN conjunct1]
  have s1: "selected_utterances (speaker_spans ''S1'' ?ws) =
      [(0, \<lparr>seg_start = 0, seg_end = 1000, seg_text = ''a''\<rparr>)]"
    by (simp add: merge_segments_def merge_loop_def word_segment_def get_default_def)
  have s2: "selected_utterances (speaker_spans ''S2'' ?ws) =
      [(0, \<lparr>seg_start = 7000, seg_end = 9000, seg_text = ''b''\<rparr>)]"
    by (simp add: merge_segments_def merge_loop_def word_segment_def get_default_def)
  have "''S1'' \<in> fst ` set (fst (create_speaker_embeddings ?W ''film.mp4'' ?ws))"
    unfolding keys mem_Collect_eq s1 by (simp add: extract_audio_segment_def)
  moreover have "''S2'' \<notin> fst ` set (fst (create_speaker_embeddings ?W ''film.mp4'' ?ws))"
    unfolding keys mem_Collect_eq s2 by (simp add: extract_audio_segment_def)
  moreover have "''UNKNOWN'' \<notin> fst ` set (fst (create_speaker_embeddings ?W ''film.mp4'' ?ws))"
    unfolding keys mem_Collect_eq by simp
  ultimately show ?thesis by blast
qed

subsection \<open>Selection of the utterances\<close>

lemma process_speaker_take: "process_speaker W v s segs = process_speaker W v s (take 10 segs)"
  by (simp add: process_speaker_def)

text \<open>
  Claim C9. For every speaker other than \<open>UNKNOWN\<close>, the calls of the extraction are those
  for the first five utterances merged from the first ten spans of the speaker, in the
  order of the word list; there are at most five of them, and the speaker's fingerprint is
  the one computed from the first ten spans alone.
\<close>

theorem selection_caps:
  "List.map_filter (extract_call s) (snd (create_speaker_embeddings W v ws)) =
     (if s = ''UNKNOWN'' then []
      else map (\<lambda>(i, u). (i, seg_start u, seg_end u))
             (enumerate 0 (take 5 (merge_segments (take 10 (speaker_spans s ws))))))
   \<and> length (List.map_filter (extract_call s) (snd (create_speaker_embeddings W v ws))) \<le> 5
   \<and> map_of (fst (create_speaker_embeddings W v ws)) s =
       (if s = ''UNKNOWN'' then None
        else fst (process_speaker W v s (take 10 (speaker_spans s ws))))"
proof -
  have look: "map_of (fst (create_speaker_embeddings W v ws)) s =
       (if s = ''UNKNOWN'' then None
        else fst (process_speaker W v s (take 10 (speaker_spans s ws))))"
  proof (cases "\<exists>w \<in> set ws. speaker_of w = s")
    case True
    then show ?thesis
      using process_speaker_take[of W v s "speaker_spans s ws"] by (simp add: create_lookup)
  next
    case False
    then have "speaker_spans s ws = []" by (auto simp: filter_empty_conv)
    then have "fst (process_speaker W v s (take 10 (speaker_spans s ws))) = None"
      by (simp add: process_speaker_def merge_segments_def merge_loop_def)
    with False show ?thesis by (simp add: create_lookup)
  qed
  show ?thesis
    unfolding create_calls by (simp add: look)
qed

theorem selection_caps_witness:
  "List.map_filter (extract_call ''S1'')
     (snd (create_speaker_embeddings
        \<lparr>run_ffmpeg = (\<lambda>video a b out. Completed True 32044),
         preprocess_wav = (\<lambda>p. Returned [1]),
         embed_utterance = (\<lambda>wav. Returned [1, 0]),
         temp_dir = ''/tmp/t''\<rparr>
        ''film.mp4''
        (map (\<lambda>k. \<lparr>w_speaker = Some ''S1'', w_startMs = Some (2000 * k), w_start = None,
                    w_endMs = Some (2000 * k + 1000), w_end = None, w_text = Some ''a'',
                    w_word = None\<rparr>)
           [2, 3, 4, 5, 6, 7, 8, 9, 10, 11, 0, 1])))
     = [(0, 4000, 5000), (1, 6000, 7000), (2, 8000, 9000), (3, 10000, 11000),
        (4, 12000, 13000)]"
  using selection_caps[of "''S1''"
        "\<lparr>run_ffmpeg = (\<lambda>video a b out. Completed True 32044),
         preprocess_wav = (\<lambda>p. Returned [1]),
         embed_utterance = (\<lambda>wav. Returned [1, 0]),
         temp_dir = ''/tmp/t''\<rparr>" "''film.mp4''"
        "map (\<lambda>k. \<lparr>w_speaker = Some ''S1'', w_startMs = Some (2000 * k), w_start = None,
                    w_endMs = Some (2000 * k + 1000), w_end = None, w_text = Some ''a'',
                    w_word = None\<rparr>)
           [2, 3, 4, 5, 6, 7, 8, 9, 10, 11, 0, 1]", THEN conjunct1]
  by (simp add: merge_segments_def merge_loop_def word_segment_def get_default_def)

text \<open>
  Claim C3. The spans [0,400), [450,900), [2000,2200) of one speaker: after the pass the
  merged list holds the utterance [0,900) (gap 50 < 500, duration 900 > 500) and the
  current utterance is [2000,2200) (gap 1100), which is dropped at the end (duration 200);
  the one utterance selected is [0,900), and it is the one passed to the extraction.
\<close>

theorem merge_example:
  "merge_loop (take 10
       [\<lparr>seg_start = 0, seg_end = 400, seg_text = t1\<rparr>,
        \<lparr>seg_start = 450, seg_end = 900, seg_text = t2\<rparr>,
        \<lparr>seg_start = 2000, seg_end = 2200, seg_text = t3\<rparr>])
     = ([\<lparr>seg_start = 0, seg_end = 900, seg_text = t1 @ '' '' @ t2\<rparr>],
        Some \<lparr>seg_start = 2000, seg_end = 2200, seg_text = t3\<rparr>)
   \<and> take 5 (merge_segments (take 10
       [\<lparr>seg_start = 0, seg_end = 400, seg_text = t1\<rparr>,
        \<lparr>seg_start = 450, seg_end = 900, seg_text = t2\<rparr>,
        \<lparr>seg_start = 2000, seg_end = 2200, seg_text = t3\<rparr>]))
     = [\<lparr>seg_start = 0, seg_end = 900, seg_text = t1 @ '' '' @ t2\<rparr>]
   \<and> List.map_filter (extract_call ''S1'')
       (snd (create_speaker_embeddings W v
          [\<lparr>w_speaker = Some ''S1'', w_startMs = Some 0, w_start = None, w_endMs = Some 400,
            w_end = None, w_text = Some t1, w_word = None\<rparr>,
           \<lparr>w_speaker = Some ''S1'', w_startMs = Some 450, w_start = None, w_endMs = Some 900,
            w_end = None, w_text = Some t2, w_word = None\<rparr>,
           \<lparr>w_speaker = Some ''S1'', w_startMs = Some 2000, w_start = None, w_endMs = Some 2200,
            w_end = None, w_text = Some t3, w_word = None\<rparr>]))
     = [(0, 0, 900)]"
  by (simp add: create_calls merge_segments_def merge_loop_def word_segment_def get_default_def)

lemma length_append_segment:
  "length (concat (map snd (append_segment s x d))) = Suc (length (concat (map snd d)))"
  by (induction d) auto

lemma group_words_count:
  "length (concat (map snd (group_words ws))) = length [w \<leftarrow> ws. speaker_of w \<noteq> ''UNKNOWN'']"
  by (induction ws rule: rev_induct)
     (simp_all add: group_words_snoc group_word_def Let_def length_append_segment,
      simp add: group_words_def)

lemma group_word_explicit:
  "group_word d (w\<lparr>w_startMs := Some (seg_start (word_segment w)),
                   w_endMs := Some (seg_end (word_segment w)),
                   w_text := Some (seg_text (word_segment w))\<rparr>) = group_word d w"
  by (simp add: group_word_def word_segment_def get_default_def Let_def)

lemma group_words_explicit:
  "group_words (map (\<lambda>w. w\<lparr>w_startMs := Some (seg_start (word_segment w)),
                   w_endMs := Some (seg_end (word_segment w)),
                   w_text := Some (seg_text (word_segment w))\<rparr>) ws) = group_words ws"
  by (induction ws rule: rev_induct) (simp_all add: group_words_def group_word_explicit)

text \<open>
  Claim C10. The segment of a word takes its start from \<open>startMs\<close>, else \<open>start\<close>, else 0,
  its end from \<open>endMs\<close>, else \<open>end\<close>, else 0, its text from \<open>text\<close>, else \<open>word\<close>, else the empty
  string. No word is rejected: every word with a speaker other than \<open>UNKNOWN\<close> gives one
  segment. A word with missing fields is treated as the word with the defaults written
  out: the result and the trace are the same. A word without any time field is merged as
  the span [0,0): with a second span [100,700) it gives the utterance [0,700).
\<close>

theorem missing_fields_default:
  "word_segment w =
     \<lparr>seg_start = (case w_startMs w of Some x \<Rightarrow> x
                    | None \<Rightarrow> (case w_start w of Some x \<Rightarrow> x | None \<Rightarrow> 0)),
      seg_end = (case w_endMs w of Some x \<Rightarrow> x
                  | None \<Rightarrow> (case w_end w of Some x \<Rightarrow> x | None \<Rightarrow> 0)),
      seg_text = (case w_text w of Some t \<Rightarrow> t
                   | None \<Rightarrow> (case w_word w of Some t \<Rightarrow> t | None \<Rightarrow> ''''))\<rparr>
   \<and> length (concat (map snd (group_words ws)))
       = length [w \<leftarrow> ws. get_default (w_speaker w) ''UNKNOWN'' \<noteq> ''UNKNOWN'']
   \<and> create_speaker_embeddings W v ws =
       create_speaker_embeddings W v
         (map (\<lambda>w. w\<lparr>w_startMs := Some (seg_start (word_segment w)),
                       w_endMs := Some (seg_end (word_segment w)),
                       w_text := Some (seg_text (word_segment w))\<rparr>) ws)
   \<and> List.map_filter (extract_call ''S1'')
       (snd (create_speaker_embeddings W v
          [\<lparr>w_speaker = Some ''S1'', w_startMs = None, w_start = None, w_endMs = None,
            w_end = None, w_text = None, w_word = None\<rparr>,
           \<lparr>w_speaker = Some ''S1'', w_startMs = None, w_start = Some 100, w_endMs = None,
            w_end = Some 700, w_text = None, w_word = Some ''hi''\<rparr>]))
     = [(0, 0, 700)]"
proof -
  have "List.map_filter (extract_call ''S1'')
       (snd (create_speaker_embeddings W v
          [\<lparr>w_speaker = Some ''S1'', w_startMs = None, w_start = None, w_endMs = None,
            w_end = None, w_text = None, w_word = None\<rparr>,
           \<lparr>w_speaker = Some ''S1'', w_startMs = None, w_start = Some 100, w_endMs = None,
            w_end = Some 700, w_text = None, w_word = Some ''hi''\<rparr>]))
     = [(0, 0, 700)]"
    by (simp add: create_calls merge_segments_def merge_loop_def word_segment_def get_default_def)
  moreover have "word_segment w =
     \<lparr>seg_start = (case w_startMs w of Some x \<Rightarrow> x
                    | None \<Rightarrow> (case w_start w of Some x \<Rightarrow> x | None \<Rightarrow> 0)),
      seg_end = (case w_endMs w of Some x \<Rightarrow> x
                  | None \<Rightarrow> (case w_end w of Some x \<Rightarrow> x | None \<Rightarrow> 0)),
      seg_text = (case w_text w of Some t \<Rightarrow> t
                   | None \<Rightarrow> (case w_word w of Some t \<Rightarrow> t | None \<Rightarrow> ''''))\<rparr>"
    by (simp add: word_segment_def get_default_def split: option.splits)
  ultimately show ?thesis
    by (simp add: group_words_count create_speaker_embeddings_def group_words_explicit)
qed

end
